theory Spec2Isabelle
  imports Main "HOL-Library.Sublist" "HOL-Library.Multiset"
begin

section \<open>Document model (types.ts)\<close>

text \<open>
  The entities of \<^verbatim>\<open>types.ts\<close> and of the reactflow \<^verbatim>\<open>Node\<close> and \<^verbatim>\<open>Edge\<close>
  objects the application stores. Optional TypeScript fields (\<^verbatim>\<open>description?\<close>) are
  options. Coordinates are JavaScript numbers; every coordinate the program itself
  produces is an integer, and the model takes integer coordinates. The callback field
  \<^verbatim>\<open>onEdit\<close> is kept as a flag: whether the handler is attached.
\<close>

datatype NodeType = PROBLEM | CATEGORY | SPINE

record Evidence =
  ev_id :: string
  ev_name :: string
  ev_description :: "string option"

record Cause =
  cause_id :: string
  cause_name :: string
  cause_description :: "string option"
  evidence :: "Evidence list"

record ProcessNodeData =
  did :: string
  dtype :: NodeType
  title :: string
  description :: "string option"
  causes :: "Cause list"
  onEdit :: bool

record Position =
  pos_x :: int
  pos_y :: int

record Node =
  nid :: string
  ntype :: string
  position :: Position
  ndata :: ProcessNodeData

record EdgeStyle =
  strokeWidth :: nat
  stroke :: string

record EdgeData =
  dlabel :: "string option"
  dcauses :: "Cause list option"

record Edge =
  eid :: string
  source :: string
  target :: string
  label :: "string option"
  style :: "EdgeStyle option"
  etype :: "string option"
  sourceHandle :: "string option"
  targetHandle :: "string option"
  edata :: "EdgeData option"

section \<open>Graph store primitives (App component)\<close>

text \<open>
  The React state of the application: the node list and the edge list.
  \<^verbatim>\<open>handleDeleteNode\<close> filters both.
\<close>

record Doc =
  nodes :: "Node list"
  edges :: "Edge list"

definition handleDeleteNode :: "string \<Rightarrow> Doc \<Rightarrow> Doc" where
  "handleDeleteNode i d =
     \<lparr> nodes = filter (\<lambda>n. nid n \<noteq> i) (nodes d),
       edges = filter (\<lambda>edge. source edge \<noteq> i \<and> target edge \<noteq> i) (edges d) \<rparr>"

section \<open>JavaScript helpers\<close>

text \<open>
  Strings are byte lists. \<^verbatim>\<open>includes\<close> is contiguous containment. A string is
  truthy when it is non-empty, an absent argument (\<^verbatim>\<open>undefined\<close>) is falsy.
  \<open>toLowerCase\<close> below folds the ASCII letters and keeps every other byte. It is used
  for the test whether a title contains \<^verbatim>\<open>problem\<close>, where it decides as JavaScript's
  \<^verbatim>\<open>toLowerCase\<close> does: no letter outside ASCII lower-cases to one of the letters of
  \<^verbatim>\<open>problem\<close>. The comparison of cause names, which may hold any letters, uses the
  library's function, a field of the environment below.
\<close>

definition toLowerChar :: "char \<Rightarrow> char" where
  "toLowerChar c =
     (let n = (of_char c :: nat) in if 65 \<le> n \<and> n \<le> 90 then char_of (n + 32) else c)"

definition toLowerCase :: "string \<Rightarrow> string" where
  "toLowerCase s = map toLowerChar s"

fun str_includes :: "string \<Rightarrow> string \<Rightarrow> bool" where
  "str_includes [] sub = (sub = [])"
| "str_includes (c # cs) sub = (prefix sub (c # cs) \<or> str_includes cs sub)"

definition truthy :: "string option \<Rightarrow> bool" where
  "truthy a = (case a of None \<Rightarrow> False | Some s \<Rightarrow> s \<noteq> [])"

definition or_str :: "string option \<Rightarrow> string \<Rightarrow> string" where
  \<comment> \<open>\<^verbatim>\<open>a || b\<close> on an optional string\<close>
  "or_str a b = (case a of None \<Rightarrow> b | Some s \<Rightarrow> if s = [] then b else s)"

definition interpolate :: "string option \<Rightarrow> string" where
  \<comment> \<open>an optional string inside a template literal\<close>
  "interpolate a = (case a of None \<Rightarrow> ''undefined'' | Some s \<Rightarrow> s)"

definition digit_char :: "nat \<Rightarrow> char" where
  "digit_char d = char_of (48 + d)"

fun show_nat :: "nat \<Rightarrow> string" where
  "show_nat n = (if n < 10 then [digit_char n] else show_nat (n div 10) @ [digit_char (n mod 10)])"

declare show_nat.simps [simp del]

fun findIndex :: "('a \<Rightarrow> bool) \<Rightarrow> 'a list \<Rightarrow> nat option" where
  "findIndex P [] = None"
| "findIndex P (a # as) = (if P a then Some 0 else map_option Suc (findIndex P as))"

definition splice1 :: "nat \<Rightarrow> 'a list \<Rightarrow> 'a list" where
  \<comment> \<open>\<^verbatim>\<open>xs.splice(i, 1)\<close>\<close>
  "splice1 i xs = take i xs @ drop (Suc i) xs"

definition bullet :: string where
  \<comment> \<open>the UTF-8 bytes of U+2022 and a space\<close>
  "bullet = [CHR 0xE2, CHR 0x80, CHR 0xA2, CHR '' '']"

definition nl :: string where
  "nl = [CHR 0x0A]"

section \<open>Environment\<close>

text \<open>
  \<^verbatim>\<open>Date.now()\<close>, \<^verbatim>\<open>Math.random()\<close> and \<^verbatim>\<open>uuidv4()\<close> are oracles: the
  \<open>k\<close>-th call made during a batch returns the oracle's value at \<open>k\<close>. The interpreter
  counts its calls. Nothing is assumed about the values: two readings of the clock may
  agree. \<open>lowerCase\<close> is JavaScript's \<^verbatim>\<open>String.prototype.toLowerCase\<close>, which folds
  every cased letter of Unicode; nothing is assumed about it either.
\<close>

record Env =
  date_now :: "nat \<Rightarrow> nat"
  math_random :: "nat \<Rightarrow> string"
  uuidv4 :: "nat \<Rightarrow> string"
  lowerCase :: "string \<Rightarrow> string"

text \<open>
  \<^verbatim>\<open>addEdge\<close> is a function of the reactflow library (version 11), not of the
  repository: it returns the edge list unchanged when source or target of the new edge
  is falsy or when an edge with the same source, target and handles exists, and appends
  the new edge otherwise. The interpreter takes it as a parameter; \<open>addEdge\<close> below is
  the library's function.
\<close>

definition connectionExists :: "Edge \<Rightarrow> Edge list \<Rightarrow> bool" where
  "connectionExists edge es =
     list_ex (\<lambda>el. source el = source edge \<and> target el = target edge
        \<and> (sourceHandle el = sourceHandle edge
             \<or> ((\<not> truthy (sourceHandle el)) \<and> (\<not> truthy (sourceHandle edge))))
        \<and> (targetHandle el = targetHandle edge
             \<or> ((\<not> truthy (targetHandle el)) \<and> (\<not> truthy (targetHandle edge))))) es"

definition addEdge :: "Edge \<Rightarrow> Edge list \<Rightarrow> Edge list" where
  "addEdge edgeParams es =
     (if source edgeParams = [] \<or> target edgeParams = [] then es
      else if connectionExists edgeParams es then es
      else es @ [edgeParams])"

section \<open>Command interpreter (handleSendMessage)\<close>

record Interp =
  localNodes :: "Node list"
  localEdges :: "Edge list"
  changeLog :: "string list"
  calls :: nat

text \<open>
  \<open>changeLog\<close> is the list of the strings appended by \<^verbatim>\<open>changeLog += ...\<close>, in
  order; the source's string is their concatenation.
\<close>

subsection \<open>addNodeFishbone\<close>

definition spineNodesOf :: "Node list \<Rightarrow> Node list" where
  "spineNodesOf ns =
     sort_key (\<lambda>n. pos_x (position n))
       (filter (\<lambda>n. dtype (ndata n) = SPINE \<and> nid n \<noteq> ''spine_tail'') ns)"

definition isTopRib :: "Node list \<Rightarrow> Edge \<Rightarrow> bool" where
  "isTopRib ns e =
     (case find (\<lambda>n. nid n = source e) ns of
        None \<Rightarrow> False
      | Some sourceNode \<Rightarrow> pos_y (position sourceNode) < 300)"

definition isBottomRib :: "Node list \<Rightarrow> Edge \<Rightarrow> bool" where
  "isBottomRib ns e =
     (case find (\<lambda>n. nid n = source e) ns of
        None \<Rightarrow> False
      | Some sourceNode \<Rightarrow> pos_y (position sourceNode) > 300)"

text \<open>
  The slot loop: the values of \<^verbatim>\<open>targetSpineId\<close>, \<^verbatim>\<open>newPosition\<close> and
  \<^verbatim>\<open>handleType\<close> when the loop ends; their initial values when no spine node has a
  free slot.
\<close>

fun checkSlots :: "Node list \<Rightarrow> Edge list \<Rightarrow> Node list \<Rightarrow> string \<times> Position \<times> string" where
  "checkSlots ns es [] = ([], \<lparr>pos_x = 0, pos_y = 0\<rparr>, ''top'')"
| "checkSlots ns es (spine # rest) =
     (let connectedNodes = filter (\<lambda>e. target e = nid spine) es;
          topRib = find (isTopRib ns) connectedNodes;
          bottomRib = find (isBottomRib ns) connectedNodes
      in if topRib = None
           then (nid spine, \<lparr>pos_x = pos_x (position spine) - 150, pos_y = 50\<rparr>, ''top'')
         else if bottomRib = None
           then (nid spine, \<lparr>pos_x = pos_x (position spine) - 150, pos_y = 550\<rparr>, ''bottom'')
         else checkSlots ns es rest)"

definition spineEdge :: "string \<Rightarrow> string \<Rightarrow> string \<Rightarrow> Edge" where
  "spineEdge i s t =
     \<lparr> eid = i, source = s, target = t, label = None,
       style = Some \<lparr>strokeWidth = 4, stroke = ''#475569''\<rparr>, etype = Some ''straight'',
       sourceHandle = None, targetHandle = None, edata = None \<rparr>"

definition newSpineIdOf :: "Node list \<Rightarrow> string" where
  "newSpineIdOf spineNodes = ''spine_'' @ show_nat (length spineNodes + 1) @ ''_auto''"

definition newSpineNodeOf :: "Node list \<Rightarrow> Node \<Rightarrow> Node" where
  "newSpineNodeOf spineNodes problemNode =
     \<lparr> nid = newSpineIdOf spineNodes, ntype = ''processNode'',
       position = \<lparr>pos_x = (pos_x (position problemNode) - 250) + 350, pos_y = 300\<rparr>,
       ndata = \<lparr> did = newSpineIdOf spineNodes, dtype = SPINE, title = [],
                 description = None, causes = [], onEdit = False \<rparr> \<rparr>"

text \<open>The block "If no slots, create new spine segment" (lines 752 to 800).\<close>

definition extendSpine :: "Env \<Rightarrow> Node list \<Rightarrow> Node \<Rightarrow> Interp \<Rightarrow> (string \<times> Position \<times> string) \<times> Interp" where
  "extendSpine env spineNodes problemNode st =
     (let oldProblemX = pos_x (position problemNode);
          ns1 = (case findIndex (\<lambda>n. nid n = nid problemNode) (localNodes st) of
                   None \<Rightarrow> localNodes st
                 | Some probIdx \<Rightarrow>
                     (localNodes st)[probIdx := problemNode\<lparr>position :=
                        \<lparr>pos_x = oldProblemX + 350, pos_y = pos_y (position problemNode)\<rparr>\<rparr>]);
          newSpineId = newSpineIdOf spineNodes;
          newSpineNode = newSpineNodeOf spineNodes problemNode;
          ns2 = ns1 @ [newSpineNode];
          st1 = (case spineNodes of
                   [] \<Rightarrow> st
                 | _ # _ \<Rightarrow>
                     st\<lparr>localEdges := localEdges st @
                          [spineEdge (''s-auto-'' @ show_nat (date_now env (calls st)))
                             (nid (last spineNodes)) newSpineId],
                        calls := calls st + 1\<rparr>);
          es2 = (case findIndex (\<lambda>e. target e = nid problemNode) (localEdges st1) of
                   None \<Rightarrow> localEdges st1
                 | Some oldProbEdgeIdx \<Rightarrow> splice1 oldProbEdgeIdx (localEdges st1));
          es3 = es2 @ [spineEdge (''s-end-'' @ show_nat (date_now env (calls st1)))
                         newSpineId (nid problemNode)]
      in ((newSpineId, \<lparr>pos_x = pos_x (position newSpineNode) - 150, pos_y = 50\<rparr>, ''top''),
          st1\<lparr>localNodes := ns2, localEdges := es3, calls := calls st1 + 1\<rparr>))"

definition classify :: "string option \<Rightarrow> NodeType" where
  "classify ttl =
     (case ttl of
        None \<Rightarrow> CATEGORY
      | Some t \<Rightarrow> if str_includes (toLowerCase t) ''problem'' then PROBLEM else CATEGORY)"

definition ribNode :: "string \<Rightarrow> Position \<Rightarrow> string option \<Rightarrow> string option \<Rightarrow> Node" where
  "ribNode newNodeId newPosition ttl descr =
     \<lparr> nid = newNodeId, ntype = ''processNode'', position = newPosition,
       ndata = \<lparr> did = newNodeId, dtype = classify ttl, title = or_str ttl ''Category'',
                 description = Some (or_str descr []), causes = [], onEdit = True \<rparr> \<rparr>"

definition ribEdge :: "string \<Rightarrow> string \<Rightarrow> string \<Rightarrow> string \<Rightarrow> Edge" where
  "ribEdge i newNodeId targetSpineId handleType =
     \<lparr> eid = i, source = newNodeId, target = targetSpineId, label = None,
       style = Some \<lparr>strokeWidth = 2, stroke = ''#64748b''\<rparr>, etype = Some ''straight'',
       sourceHandle = Some (if handleType = ''top'' then ''bottom'' else ''top''),
       targetHandle = Some (if handleType = ''top'' then ''rib-top'' else ''rib-bottom''),
       edata = None \<rparr>"

definition isDuplicate :: "string option \<Rightarrow> Node list \<Rightarrow> bool" where
  \<comment> \<open>\<^verbatim>\<open>desiredId && localNodes.find(n => n.id === desiredId)\<close>\<close>
  "isDuplicate desiredId ns =
     (case desiredId of
        None \<Rightarrow> False
      | Some i \<Rightarrow> i \<noteq> [] \<and> find (\<lambda>n. nid n = i) ns \<noteq> None)"

definition newNodeIdOf :: "Env \<Rightarrow> string option \<Rightarrow> Interp \<Rightarrow> string \<times> Interp" where
  \<comment> \<open>\<^verbatim>\<open>desiredId || `n-${Date.now()}`\<close> (line 707)\<close>
  "newNodeIdOf env desiredId st =
     (if truthy desiredId then (or_str desiredId [], st)
      else (''n-'' @ show_nat (date_now env (calls st)), st\<lparr>calls := calls st + 1\<rparr>))"

definition assignSlot :: "Env \<Rightarrow> Interp \<Rightarrow> (string \<times> Position \<times> string) \<times> Interp" where
  \<comment> \<open>the placement logic (lines 716 to 800): the slot loop, then the spine extension\<close>
  "assignSlot env st =
     (let spineNodes = spineNodesOf (localNodes st);
          problemNode = find (\<lambda>n. dtype (ndata n) = PROBLEM) (localNodes st);
          slot = checkSlots (localNodes st) (localEdges st) spineNodes
      in case problemNode of
           None \<Rightarrow> (slot, st)
         | Some p \<Rightarrow> if fst slot = [] then extendSpine env spineNodes p st else (slot, st))"

definition pushRib :: "Env \<Rightarrow> string \<Rightarrow> string option \<Rightarrow> string option \<Rightarrow> string \<times> Position \<times> string \<Rightarrow> Interp \<Rightarrow> Interp" where
  \<comment> \<open>"Create the Rib Node" and "Auto-connect to Spine" (lines 802 to 831)\<close>
  "pushRib env newNodeId ttl descr slot st =
     (let targetSpineId = fst slot;
          newPosition = fst (snd slot);
          handleType = snd (snd slot);
          st2 = st\<lparr>localNodes := localNodes st @ [ribNode newNodeId newPosition ttl descr]\<rparr>
      in if targetSpineId \<noteq> []
         then st2\<lparr>localEdges := localEdges st2 @
                    [ribEdge (''e-auto-'' @ show_nat (date_now env (calls st2)))
                       newNodeId targetSpineId handleType],
                  calls := calls st2 + 1\<rparr>
         else st2)"

definition placeNode :: "Env \<Rightarrow> string option \<Rightarrow> string option \<Rightarrow> string option \<Rightarrow> Interp \<Rightarrow> string \<times> Interp" where
  \<comment> \<open>the body of \<^verbatim>\<open>addNodeFishbone\<close> after the duplicate check\<close>
  "placeNode env ttl descr desiredId st =
     (let idst = newNodeIdOf env desiredId st;
          slotst = assignSlot env (snd idst)
      in (fst idst, pushRib env (fst idst) ttl descr (fst slotst) (snd slotst)))"

definition addNodeFishbone :: "Env \<Rightarrow> string option \<Rightarrow> string option \<Rightarrow> string option \<Rightarrow> Interp \<Rightarrow> string \<times> Interp" where
  "addNodeFishbone env ttl descr desiredId st =
     (if isDuplicate desiredId (localNodes st) then (or_str desiredId [], st)
      else placeNode env ttl descr desiredId st)"

subsection \<open>The tool calls\<close>

text \<open>
  A tool call carries the arguments its declaration in \<^verbatim>\<open>geminiService.ts\<close> lists:
  a required argument is a string, an optional one (and \<^verbatim>\<open>targetType\<close>, whose
  absence the interpreter handles) is an option. A call with a name outside the six
  declared ones is \<open>unknown_tool\<close>.
\<close>

datatype ToolCall =
    clear_graph
  | add_node "string option" "string option" "string option"
  | connect_nodes string string "string option"
  | update_node string "string option" "string option"
  | add_cause string "string option" string "string option"
  | add_evidence string "string option" string string "string option"
  | unknown_tool string

definition appendLog :: "string \<Rightarrow> Interp \<Rightarrow> Interp" where
  \<comment> \<open>\<^verbatim>\<open>changeLog += line\<close>\<close>
  "appendLog line st = st\<lparr>changeLog := changeLog st @ [line]\<rparr>"

definition aiEdge :: "Env \<Rightarrow> nat \<Rightarrow> string \<Rightarrow> string \<Rightarrow> string option \<Rightarrow> Edge" where
  "aiEdge env k sourceId targetId lbl =
     \<lparr> eid = ''e-ai-'' @ show_nat (date_now env k) @ ''-'' @ math_random env (k + 1),
       source = sourceId, target = targetId, label = Some (or_str lbl []),
       style = Some \<lparr>strokeWidth = 2, stroke = ''#64748b''\<rparr>, etype = None,
       sourceHandle = None, targetHandle = None,
       edata = Some \<lparr>dlabel = None, dcauses = Some []\<rparr> \<rparr>"

definition isNodeTarget :: "string option \<Rightarrow> bool" where
  \<comment> \<open>\<^verbatim>\<open>targetType === 'NODE' || !targetType\<close>\<close>
  "isNodeTarget targetType = (targetType = Some ''NODE'' \<or> \<not> truthy targetType)"

definition edgeCauses :: "Edge \<Rightarrow> Cause list" where
  \<comment> \<open>\<^verbatim>\<open>e.data?.causes || []\<close>\<close>
  "edgeCauses e =
     (case edata e of
        None \<Rightarrow> []
      | Some d \<Rightarrow> (case dcauses d of None \<Rightarrow> [] | Some cs \<Rightarrow> cs))"

definition setEdgeCauses :: "Cause list \<Rightarrow> Edge \<Rightarrow> Edge" where
  \<comment> \<open>\<^verbatim>\<open>{ ...e, data: { ...e.data, causes: cs } }\<close>\<close>
  "setEdgeCauses cs e =
     e\<lparr>edata := Some (case edata e of
                       None \<Rightarrow> \<lparr>dlabel = None, dcauses = Some cs\<rparr>
                     | Some d \<Rightarrow> d\<lparr>dcauses := Some cs\<rparr>)\<rparr>"

definition attachEvidence :: "(string \<Rightarrow> string) \<Rightarrow> string \<Rightarrow> Evidence \<Rightarrow> Cause list \<Rightarrow> Cause list" where
  \<comment> \<open>the \<^verbatim>\<open>map\<close> over the causes (lines 906 to 911), with the library's \<^verbatim>\<open>toLowerCase\<close>\<close>
  "attachEvidence lc causeName newEvidence cs =
     map (\<lambda>r. if lc (cause_name r) = lc causeName
               then r\<lparr>evidence := evidence r @ [newEvidence]\<rparr> else r) cs"

fun applyTool :: "(Edge \<Rightarrow> Edge list \<Rightarrow> Edge list) \<Rightarrow> Env \<Rightarrow> ToolCall \<Rightarrow> Interp \<Rightarrow> Interp" where
  "applyTool ae env clear_graph st =
     appendLog (bullet @ ''Cleared canvas'' @ nl) (st\<lparr>localNodes := [], localEdges := []\<rparr>)"
| "applyTool ae env (add_node ttl descr i) st =
     appendLog (bullet @ ''Added Category: '' @ interpolate ttl @ nl)
       (snd (addNodeFishbone env ttl descr i st))"
| "applyTool ae env (connect_nodes sourceId targetId lbl) st =
     appendLog (bullet @ ''Connected '' @ sourceId @ '' -> '' @ targetId @ nl)
       (st\<lparr>localEdges := ae (aiEdge env (calls st) sourceId targetId lbl) (localEdges st),
           calls := calls st + 2\<rparr>)"
| "applyTool ae env (update_node i ttl descr) st =
     (case findIndex (\<lambda>n. nid n = i) (localNodes st) of
        None \<Rightarrow> st
      | Some nodeIndex \<Rightarrow>
          (let n = localNodes st ! nodeIndex
           in appendLog (bullet @ ''Updated: '' @ or_str ttl (title (ndata n)) @ nl)
                (st\<lparr>localNodes := (localNodes st)[nodeIndex :=
                      n\<lparr>ndata := (ndata n)\<lparr>title := or_str ttl (title (ndata n)),
                           description := (case descr of None \<Rightarrow> description (ndata n)
                                           | Some d \<Rightarrow> Some d)\<rparr>\<rparr>]\<rparr>)))"
| "applyTool ae env (add_cause targetId targetType name descr) st =
     (let newCause = \<lparr>cause_id = uuidv4 env (calls st), cause_name = name,
                       cause_description = descr, evidence = []\<rparr>;
          st0 = st\<lparr>calls := calls st + 1\<rparr>
      in if isNodeTarget targetType then
           (case findIndex (\<lambda>n. nid n = targetId) (localNodes st0) of
              None \<Rightarrow> st0
            | Some nIndex \<Rightarrow>
                (let n = localNodes st0 ! nIndex
                 in appendLog (bullet @ ''Added Factor to '' @ title (ndata n) @ '': '' @ name @ nl)
                      (st0\<lparr>localNodes := (localNodes st0)[nIndex :=
                            n\<lparr>ndata := (ndata n)\<lparr>causes := causes (ndata n) @ [newCause]\<rparr>\<rparr>]\<rparr>)))
         else if targetType = Some ''EDGE'' then
           (case findIndex (\<lambda>e. eid e = targetId) (localEdges st0) of
              None \<Rightarrow> st0
            | Some eIndex \<Rightarrow>
                (let e = localEdges st0 ! eIndex
                 in appendLog (bullet @ ''Added Factor to Link: '' @ name @ nl)
                      (st0\<lparr>localEdges := (localEdges st0)[eIndex :=
                            setEdgeCauses (edgeCauses e @ [newCause]) e]\<rparr>)))
         else st0)"
| "applyTool ae env (add_evidence targetId targetType causeName name descr) st =
     (let newEvidence = \<lparr>ev_id = uuidv4 env (calls st), ev_name = name, ev_description = descr\<rparr>;
          st0 = st\<lparr>calls := calls st + 1\<rparr>
      in if isNodeTarget targetType then
           (case findIndex (\<lambda>n. nid n = targetId) (localNodes st0) of
              None \<Rightarrow> st0
            | Some nIndex \<Rightarrow>
                (let n = localNodes st0 ! nIndex
                 in appendLog (bullet @ ''Added Evidence to Factor '' @ [CHR 0x27] @ causeName
                           @ [CHR 0x27] @ '': '' @ name @ nl)
                      (st0\<lparr>localNodes := (localNodes st0)[nIndex :=
                            n\<lparr>ndata := (ndata n)\<lparr>causes :=
                                 attachEvidence (lowerCase env) causeName newEvidence (causes (ndata n))\<rparr>\<rparr>]\<rparr>)))
         else if targetType = Some ''EDGE'' then
           (case findIndex (\<lambda>e. eid e = targetId) (localEdges st0) of
              None \<Rightarrow> st0
            | Some eIndex \<Rightarrow>
                (let e = localEdges st0 ! eIndex
                 in appendLog (bullet @ ''Added Evidence to Link Factor '' @ [CHR 0x27] @ causeName
                           @ [CHR 0x27] @ '': '' @ name @ nl)
                      (st0\<lparr>localEdges := (localEdges st0)[eIndex :=
                            setEdgeCauses (attachEvidence (lowerCase env) causeName newEvidence (edgeCauses e)) e]\<rparr>)))
         else st0)"
| "applyTool ae env (unknown_tool name) st = st"

text \<open>
  A batch: the working copies start as the committed lists, the tool calls are applied
  in order, and the working copies are committed (\<^verbatim>\<open>setNodes\<close>, \<^verbatim>\<open>setEdges\<close>).
\<close>

definition startBatch :: "Doc \<Rightarrow> Interp" where
  "startBatch d = \<lparr>localNodes = nodes d, localEdges = edges d, changeLog = [], calls = 0\<rparr>"

definition interpretBatch :: "(Edge \<Rightarrow> Edge list \<Rightarrow> Edge list) \<Rightarrow> Env \<Rightarrow> ToolCall list \<Rightarrow> Interp \<Rightarrow> Interp" where
  \<comment> \<open>\<^verbatim>\<open>response.toolCalls.forEach\<close>\<close>
  "interpretBatch ae env toolCalls st = foldl (\<lambda>s tool. applyTool ae env tool s) st toolCalls"

definition commit :: "Interp \<Rightarrow> Doc" where
  "commit st = \<lparr>nodes = localNodes st, edges = localEdges st\<rparr>"

definition runBatch :: "(Edge \<Rightarrow> Edge list \<Rightarrow> Edge list) \<Rightarrow> Env \<Rightarrow> ToolCall list \<Rightarrow> Doc \<Rightarrow> Doc" where
  "runBatch ae env toolCalls d = commit (interpretBatch ae env toolCalls (startBatch d))"


section \<open>The initial document (constants.ts)\<close>

definition mkNode :: "string \<Rightarrow> int \<Rightarrow> int \<Rightarrow> NodeType \<Rightarrow> string \<Rightarrow> string option \<Rightarrow> Node" where
  "mkNode i px py t ttl descr =
     \<lparr> nid = i, ntype = ''processNode'', position = \<lparr>pos_x = px, pos_y = py\<rparr>,
       ndata = \<lparr> did = i, dtype = t, title = ttl, description = descr, causes = [],
                 onEdit = False \<rparr> \<rparr>"

definition INITIAL_REACTFLOW_NODES :: "Node list" where
  "INITIAL_REACTFLOW_NODES =
     [ mkNode ''spine_tail'' 50 300 SPINE [] None,
       mkNode ''spine_1'' 400 300 SPINE [] None,
       mkNode ''spine_2'' 750 300 SPINE [] None,
       mkNode ''spine_3'' 1100 300 SPINE [] None,
       mkNode ''problem'' 1350 265 PROBLEM ''Problem Statement'' (Some ''Define the issue here''),
       mkNode ''people'' 250 50 CATEGORY ''People'' (Some ''Training, staffing, roles''),
       mkNode ''technology'' 250 550 CATEGORY ''Technology'' (Some ''Systems, config, outages''),
       mkNode ''process'' 600 50 CATEGORY ''Process'' (Some ''Procedures, approvals''),
       mkNode ''governance'' 600 550 CATEGORY ''Governance'' (Some ''Policies, oversight''),
       mkNode ''data'' 950 50 CATEGORY ''Data & Tools'' (Some ''Quality, integrity''),
       mkNode ''environment'' 950 550 CATEGORY ''Environment''
         (Some ''Measurement, culture, external'') ]"

definition initSpineEdge :: "string \<Rightarrow> string \<Rightarrow> string \<Rightarrow> Edge" where
  "initSpineEdge i s t = spineEdge i s t"

definition initRibEdge :: "string \<Rightarrow> string \<Rightarrow> string \<Rightarrow> string \<Rightarrow> Edge" where
  "initRibEdge i s t handleType = ribEdge i s t handleType"

definition INITIAL_REACTFLOW_EDGES :: "Edge list" where
  "INITIAL_REACTFLOW_EDGES =
     [ initSpineEdge ''s1'' ''spine_tail'' ''spine_1'',
       initSpineEdge ''s2'' ''spine_1'' ''spine_2'',
       initSpineEdge ''s3'' ''spine_2'' ''spine_3'',
       initSpineEdge ''s4'' ''spine_3'' ''problem'',
       initRibEdge ''e_people'' ''people'' ''spine_1'' ''top'',
       initRibEdge ''e_tech'' ''technology'' ''spine_1'' ''bottom'',
       initRibEdge ''e_proc'' ''process'' ''spine_2'' ''top'',
       initRibEdge ''e_gov'' ''governance'' ''spine_2'' ''bottom'',
       initRibEdge ''e_data'' ''data'' ''spine_3'' ''top'',
       initRibEdge ''e_env'' ''environment'' ''spine_3'' ''bottom'' ]"

definition initialDoc :: Doc where
  "initialDoc = \<lparr>nodes = INITIAL_REACTFLOW_NODES, edges = INITIAL_REACTFLOW_EDGES\<rparr>"

section \<open>Change-log accounting\<close>

text \<open>
  Which tool calls append a line to the change log, read off the branches of
  \<^verbatim>\<open>toolCalls.forEach\<close>: the line is appended inside the branch of the tool, for
  \<^verbatim>\<open>update_node\<close>, \<^verbatim>\<open>add_cause\<close> and \<^verbatim>\<open>add_evidence\<close> inside the
  test that the target id was found.
\<close>

definition logsLine :: "ToolCall \<Rightarrow> Interp \<Rightarrow> bool" where
  "logsLine tool st =
     (case tool of
        clear_graph \<Rightarrow> True
      | add_node ttl descr i \<Rightarrow> True
      | connect_nodes sourceId targetId lbl \<Rightarrow> True
      | update_node i ttl descr \<Rightarrow> i \<in> nid ` set (localNodes st)
      | add_cause targetId targetType name descr \<Rightarrow>
          if isNodeTarget targetType then targetId \<in> nid ` set (localNodes st)
          else targetType = Some ''EDGE'' \<and> targetId \<in> eid ` set (localEdges st)
      | add_evidence targetId targetType causeName name descr \<Rightarrow>
          if isNodeTarget targetType then targetId \<in> nid ` set (localNodes st)
          else targetType = Some ''EDGE'' \<and> targetId \<in> eid ` set (localEdges st)
      | unknown_tool name \<Rightarrow> False)"

fun countLogged :: "(Edge \<Rightarrow> Edge list \<Rightarrow> Edge list) \<Rightarrow> Env \<Rightarrow> ToolCall list \<Rightarrow> Interp \<Rightarrow> nat" where
  "countLogged ae env [] st = 0"
| "countLogged ae env (tool # rest) st =
     (if logsLine tool st then 1 else 0) + countLogged ae env rest (applyTool ae env tool st)"

section \<open>Sample data\<close>

text \<open>
  The sample environments fold case with the ASCII fold, which is what JavaScript's
  \<^verbatim>\<open>toLowerCase\<close> computes on the ASCII strings of the samples.
\<close>

definition sampleEnv :: Env where
  "sampleEnv = \<lparr> date_now = (\<lambda>k. 1000 + k), math_random = (\<lambda>k. ''0.5''),
                  uuidv4 = (\<lambda>k. ''u'' @ show_nat k), lowerCase = toLowerCase \<rparr>"

definition evidenceSample :: Interp where
  "evidenceSample =
     interpretBatch addEdge sampleEnv
       [ add_cause ''people'' (Some ''NODE'') ''vendor outage'' None,
         add_cause ''people'' (Some ''NODE'') ''Vendor Outages'' None,
         add_cause ''e_people'' (Some ''EDGE'') ''VENDOR OUTAGE'' None ]
       (startBatch initialDoc)"



text \<open>
  A document whose spine is the tail and one spine node with both slots free, and a clock
  that does not advance during a batch (\<^verbatim>\<open>Date.now()\<close> counts milliseconds).
\<close>

definition oneSpineDoc :: Doc where
  "oneSpineDoc =
     \<lparr> nodes = [ mkNode ''spine_tail'' 50 300 SPINE [] None,
                 mkNode ''spine_1'' 400 300 SPINE [] None,
                 mkNode ''problem'' 650 265 PROBLEM ''Problem Statement'' None ],
       edges = [ initSpineEdge ''s1'' ''spine_tail'' ''spine_1'',
                 initSpineEdge ''s2'' ''spine_1'' ''problem'' ] \<rparr>"

definition frozenClock :: Env where
  "frozenClock = \<lparr> date_now = (\<lambda>k. 1000), math_random = (\<lambda>k. ''0.5''),
                    uuidv4 = (\<lambda>k. ''u'' @ show_nat k), lowerCase = toLowerCase \<rparr>"

definition threeCategories :: "ToolCall list" where
  "threeCategories =
     [ add_node (Some ''Materials'') None None,
       add_node (Some ''Methods'') None None,
       add_node (Some ''Machines'') None None ]"

definition threeCategoriesWithIds :: "ToolCall list" where
  "threeCategoriesWithIds =
     [ add_node (Some ''Materials'') None (Some ''materials''),
       add_node (Some ''Methods'') None (Some ''methods''),
       add_node (Some ''Machines'') None (Some ''machines'') ]"


section \<open>Import (handleFileChange)\<close>

text \<open>
  The imported file is not decoded into typed nodes: whatever \<^verbatim>\<open>JSON.parse\<close> returns
  is stored after the shape test. The model of the import therefore works on JavaScript
  values: JSON values (numbers of any type \<open>'n\<close>) and function values, which the import
  attaches as \<^verbatim>\<open>onEdit\<close>. \<^verbatim>\<open>JSON.parse\<close> is a parameter: it returns \<open>None\<close> where
  the library throws a SyntaxError.
\<close>

datatype 'n json =
    JNull
  | JBool bool
  | JNum 'n
  | JStr string
  | JArr "'n json list"
  | JObj "(string \<times> 'n json) list"
  | JFun string

datatype js_error = TypeError

definition getProp :: "string \<Rightarrow> 'n json \<Rightarrow> js_error + 'n json option" where
  \<comment> \<open>\<^verbatim>\<open>v.key\<close> for a key that is neither an index nor a built-in property:
      a TypeError on null, the own property of an object, undefined otherwise\<close>
  "getProp key v =
     (case v of
        JNull \<Rightarrow> Inl TypeError
      | JObj kvs \<Rightarrow> Inr (map_of kvs key)
      | _ \<Rightarrow> Inr None)"

definition spread :: "'n json option \<Rightarrow> (string \<times> 'n json) list" where
  \<comment> \<open>the own enumerable properties \<^verbatim>\<open>{...v}\<close> copies\<close>
  "spread v =
     (case v of
        Some (JObj kvs) \<Rightarrow> kvs
      | Some (JArr xs) \<Rightarrow> zip (map show_nat [0..<length xs]) xs
      | Some (JStr s) \<Rightarrow> zip (map show_nat [0..<length s]) (map (\<lambda>c. JStr [c]) s)
      | _ \<Rightarrow> [])"

fun setProp :: "string \<Rightarrow> 'n json \<Rightarrow> (string \<times> 'n json) list \<Rightarrow> (string \<times> 'n json) list" where
  "setProp key v [] = [(key, v)]"
| "setProp key v ((k, w) # kvs) = (if k = key then (k, v) # kvs else (k, w) # setProp key v kvs)"

definition injectOnEdit :: "'n json \<Rightarrow> js_error + 'n json" where
  \<comment> \<open>\<^verbatim>\<open>{ ...n, data: { ...n.data, onEdit: handleUpdateNode } }\<close>\<close>
  "injectOnEdit n =
     (case getProp ''data'' n of
        Inl err \<Rightarrow> Inl err
      | Inr d \<Rightarrow>
          Inr (JObj (setProp ''data''
                 (JObj (setProp ''onEdit'' (JFun ''handleUpdateNode'') (spread d)))
                 (spread (Some n)))))"

fun mapThrowing :: "('a \<Rightarrow> js_error + 'b) \<Rightarrow> 'a list \<Rightarrow> js_error + 'b list" where
  \<comment> \<open>\<^verbatim>\<open>xs.map(f)\<close> where \<open>f\<close> may throw\<close>
  "mapThrowing f [] = Inr []"
| "mapThrowing f (a # as) =
     (case f a of
        Inl err \<Rightarrow> Inl err
      | Inr b \<Rightarrow> (case mapThrowing f as of Inl err \<Rightarrow> Inl err | Inr bs \<Rightarrow> Inr (b # bs)))"

record 'n AppState =
  storeNodes :: "'n json list"
  storeEdges :: "'n json list"
  messages :: "string list"

definition addMessage :: "string \<Rightarrow> 'n AppState \<Rightarrow> 'n AppState" where
  "addMessage m st = st\<lparr>messages := messages st @ [m]\<rparr>"

fun asArray :: "'n json option \<Rightarrow> 'n json list option" where
  \<comment> \<open>\<^verbatim>\<open>Array.isArray(v)\<close>, with the elements\<close>
  "asArray (Some (JArr xs)) = Some xs"
| "asArray _ = None"

definition handleFileChange :: "(string \<Rightarrow> 'n json option) \<Rightarrow> string \<Rightarrow> 'n AppState \<Rightarrow> 'n AppState" where
  \<comment> \<open>the \<^verbatim>\<open>reader.onload\<close> callback\<close>
  "handleFileChange parse content st =
     (case parse content of
        None \<Rightarrow> addMessage ''Error parsing file.'' st
      | Some data \<Rightarrow>
          (case getProp ''nodes'' data of
             Inl err \<Rightarrow> addMessage ''Error parsing file.'' st
           | Inr nodesField \<Rightarrow>
               (case asArray nodesField of
                  None \<Rightarrow> addMessage ''Invalid file format.'' st
                | Some ns \<Rightarrow>
                    (case getProp ''edges'' data of
                       Inl err \<Rightarrow> addMessage ''Error parsing file.'' st
                     | Inr edgesField \<Rightarrow>
                         (case asArray edgesField of
                            None \<Rightarrow> addMessage ''Invalid file format.'' st
                          | Some es \<Rightarrow>
                              (case mapThrowing injectOnEdit ns of
                                 Inl err \<Rightarrow> addMessage ''Error parsing file.'' st
                               | Inr importedNodes \<Rightarrow>
                                   addMessage (''Imported fishbone diagram with ''
                                                 @ show_nat (length ns) @ '' nodes.'')
                                     (st\<lparr>storeNodes := importedNodes, storeEdges := es\<rparr>)))))))"

text \<open>The validation as the specification words it: both fields present and arrays.\<close>

definition isArrayField :: "string \<Rightarrow> 'n json \<Rightarrow> bool" where
  "isArrayField key data =
     (case data of
        JObj kvs \<Rightarrow> asArray (map_of kvs key) \<noteq> None
      | _ \<Rightarrow> False)"

definition validPayload :: "'n json option \<Rightarrow> bool" where
  "validPayload p =
     (case p of
        None \<Rightarrow> False
      | Some data \<Rightarrow> isArrayField ''nodes'' data \<and> isArrayField ''edges'' data)"

definition sampleParse :: "string \<Rightarrow> int json option" where
  \<comment> \<open>a parser table for three sample files\<close>
  "sampleParse content =
     (if content = ''{\"nodes\":[{\"id\":\"a\"}],\"edges\":[]}''
        then Some (JObj [(''nodes'', JArr [JObj [(''id'', JStr ''a'')]]), (''edges'', JArr [])])
      else if content = ''{\"nodes\":{}}'' then Some (JObj [(''nodes'', JObj [])])
      else if content = ''null'' then Some JNull
      else None)"

definition sampleApp :: "int AppState" where
  "sampleApp = \<lparr> storeNodes = [JObj [(''id'', JStr ''old'')]], storeEdges = [JNull], messages = [] \<rparr>"

section \<open>Structural invariants\<close>

text \<open>
  The invariants as the specification words them. A rib above a spine node is an edge
  into it whose source node lies above the baseline (\<open>y < 300\<close>), as the slot loop tests
  it; a rib below is one whose source lies below (\<open>y > 300\<close>).
\<close>

definition endpointsExist :: "Node list \<Rightarrow> Edge list \<Rightarrow> bool" where
  "endpointsExist ns es = (\<forall>e\<in>set es. source e \<in> nid ` set ns \<and> target e \<in> nid ` set ns)"


definition ribsAbove :: "Node list \<Rightarrow> Edge list \<Rightarrow> string \<Rightarrow> Edge list" where
  "ribsAbove ns es sid = filter (\<lambda>e. target e = sid \<and> isTopRib ns e) es"

definition ribsBelow :: "Node list \<Rightarrow> Edge list \<Rightarrow> string \<Rightarrow> Edge list" where
  "ribsBelow ns es sid = filter (\<lambda>e. target e = sid \<and> isBottomRib ns e) es"

definition slotsRespected :: "Node list \<Rightarrow> Edge list \<Rightarrow> bool" where
  "slotsRespected ns es =
     (\<forall>n\<in>set ns. dtype (ndata n) = SPINE \<longrightarrow>
        length (ribsAbove ns es (nid n)) \<le> 1 \<and> length (ribsBelow ns es (nid n)) \<le> 1)"

text \<open>
  A document is initialized when it holds a PROBLEM node: the initial document is, a
  cleared one is not until a PROBLEM node is added again.
\<close>

definition initialized :: "Node list \<Rightarrow> bool" where
  "initialized ns = (\<exists>n\<in>set ns. dtype (ndata n) = PROBLEM)"




text \<open>
  The tool calls under which the invariants are kept: an \<^verbatim>\<open>add_node\<close> that is a
  duplicate, or whose id is new, whose title contains "problem" only when the working
  copy holds no PROBLEM node and, when the spine is extended, whose new spine id is new
  too; a \<^verbatim>\<open>connect_nodes\<close> for which the library's \<^verbatim>\<open>addEdge\<close> adds no edge, or
  between existing nodes which, when its target is a spine node and its source lies above
  (below) the baseline, finds no rib from above (below) at that spine node yet; any other
  call, \<^verbatim>\<open>clear_graph\<close> included.
\<close>

definition toolAdmissible :: "Env \<Rightarrow> ToolCall \<Rightarrow> Interp \<Rightarrow> bool" where
  "toolAdmissible env tool st =
     (case tool of
        clear_graph \<Rightarrow> True
      | add_node ttl descr i \<Rightarrow>
          isDuplicate i (localNodes st)
          \<or> (fst (newNodeIdOf env i st) \<notin> nid ` set (localNodes st)
              \<and> (classify ttl = PROBLEM \<longrightarrow> \<not> initialized (localNodes st))
              \<and> (initialized (localNodes st)
                   \<and> fst (checkSlots (localNodes st) (localEdges st) (spineNodesOf (localNodes st))) = []
                   \<longrightarrow> newSpineIdOf (spineNodesOf (localNodes st)) \<notin> nid ` set (localNodes st)
                       \<and> fst (newNodeIdOf env i st) \<noteq> newSpineIdOf (spineNodesOf (localNodes st))))
      | connect_nodes sourceId targetId lbl \<Rightarrow>
          addEdge (aiEdge env (calls st) sourceId targetId lbl) (localEdges st) = localEdges st
          \<or> (sourceId \<in> nid ` set (localNodes st) \<and> targetId \<in> nid ` set (localNodes st)
              \<and> (\<forall>n\<in>set (localNodes st). nid n = targetId \<and> dtype (ndata n) = SPINE \<longrightarrow>
                    (isTopRib (localNodes st) (aiEdge env (calls st) sourceId targetId lbl)
                       \<longrightarrow> ribsAbove (localNodes st) (localEdges st) targetId = [])
                    \<and> (isBottomRib (localNodes st) (aiEdge env (calls st) sourceId targetId lbl)
                       \<longrightarrow> ribsBelow (localNodes st) (localEdges st) targetId = [])))
      | update_node i ttl descr \<Rightarrow> True
      | add_cause targetId targetType name descr \<Rightarrow> True
      | add_evidence targetId targetType causeName name descr \<Rightarrow> True
      | unknown_tool name \<Rightarrow> True)"

fun batchAdmissible :: "(Edge \<Rightarrow> Edge list \<Rightarrow> Edge list) \<Rightarrow> Env \<Rightarrow> ToolCall list \<Rightarrow> Interp \<Rightarrow> bool" where
  "batchAdmissible ae env [] st = True"
| "batchAdmissible ae env (tool # rest) st =
     (toolAdmissible env tool st \<and> batchAdmissible ae env rest (applyTool ae env tool st))"








section \<open>Basic facts\<close>

lemma findIndex_Some_iff:
  "findIndex P xs = Some k \<longleftrightarrow> k < length xs \<and> P (xs ! k) \<and> (\<forall>j<k. \<not> P (xs ! j))"
proof (induction xs arbitrary: k)
  case Nil
  then show ?case by simp
next
  case (Cons a as)
  show ?case
  proof (cases "P a")
    case True
    then show ?thesis by (cases k) auto
  next
    case False
    show ?thesis
    proof (cases k)
      case 0
      with False show ?thesis by simp
    next
      case (Suc m)
      have "(\<forall>j<Suc m. \<not> P ((a # as) ! j)) \<longleftrightarrow> (\<forall>j<m. \<not> P (as ! j))"
        using False by (auto simp: less_Suc_eq_0_disj)
      with False Suc Cons.IH [of m] show ?thesis by auto
    qed
  qed
qed

lemma findIndex_None_iff: "findIndex P xs = None \<longleftrightarrow> (\<forall>x\<in>set xs. \<not> P x)"
  by (induction xs) auto

lemma findIndex_ex: "x \<in> set xs \<Longrightarrow> P x \<Longrightarrow> \<exists>k. findIndex P xs = Some k"
  using findIndex_None_iff [of P xs] by (cases "findIndex P xs") auto

lemma find_None_iff_set: "find P xs = None \<longleftrightarrow> (\<forall>x\<in>set xs. \<not> P x)"
  by (induction xs) auto

lemma isDuplicate_iff:
  "isDuplicate desiredId ns \<longleftrightarrow> (\<exists>i. desiredId = Some i \<and> i \<noteq> [] \<and> i \<in> nid ` set ns)"
  by (auto simp: isDuplicate_def find_None_iff_set split: option.splits)

lemma findIndex_None_image: "findIndex (\<lambda>x. f x = i) xs = None \<longleftrightarrow> i \<notin> f ` set xs"
  by (auto simp: findIndex_None_iff)

lemma findIndex_cases:
  obtains (miss) "findIndex (\<lambda>x. f x = i) xs = None" "i \<notin> f ` set xs"
        | (hit) k where "findIndex (\<lambda>x. f x = i) xs = Some k" "i \<in> f ` set xs"
  using findIndex_None_image [of f i xs] by (cases "findIndex (\<lambda>x. f x = i) xs") auto

lemma edgeCauses_setEdgeCauses: "edgeCauses (setEdgeCauses cs e) = cs"
  by (simp add: edgeCauses_def setEdgeCauses_def split: option.splits)

lemma setEdgeCauses_fields:
  "eid (setEdgeCauses cs e) = eid e" "source (setEdgeCauses cs e) = source e"
  "target (setEdgeCauses cs e) = target e" "label (setEdgeCauses cs e) = label e"
  "style (setEdgeCauses cs e) = style e" "etype (setEdgeCauses cs e) = etype e"
  "sourceHandle (setEdgeCauses cs e) = sourceHandle e"
  "targetHandle (setEdgeCauses cs e) = targetHandle e"
  by (simp_all add: setEdgeCauses_def)

lemma attachEvidence_length: "length (attachEvidence lc cn ev cs) = length cs"
  by (simp add: attachEvidence_def)

lemma attachEvidence_nth:
  "c < length cs \<Longrightarrow> attachEvidence lc cn ev cs ! c =
     (if lc (cause_name (cs ! c)) = lc cn
      then (cs ! c)\<lparr>evidence := evidence (cs ! c) @ [ev]\<rparr> else cs ! c)"
  by (simp add: attachEvidence_def)

lemma attachEvidence_no_match:
  "\<forall>r\<in>set cs. lc (cause_name r) \<noteq> lc cn \<Longrightarrow> attachEvidence lc cn ev cs = cs"
  by (simp add: attachEvidence_def map_idI)

lemma str_includes_sublist: "str_includes s sub \<longleftrightarrow> sublist sub s"
  by (induction s) (auto simp: sublist_Cons_right)

lemma str_includes_iff: "str_includes s sub \<longleftrightarrow> (\<exists>p q. s = p @ sub @ q)"
  by (simp add: str_includes_sublist sublist_def)

lemma classify_PROBLEM:
  "classify ttl = PROBLEM \<longleftrightarrow> (\<exists>t p q. ttl = Some t \<and> toLowerCase t = p @ ''problem'' @ q)"
  by (auto simp: classify_def str_includes_iff split: option.splits)

lemma classify_CATEGORY: "classify ttl = CATEGORY \<longleftrightarrow> classify ttl \<noteq> PROBLEM"
  by (simp add: classify_def split: option.splits)

lemma newSpineIdOf_nonempty: "newSpineIdOf sp \<noteq> []"
  by (simp add: newSpineIdOf_def)

lemma extendSpine_fst:
  "fst (extendSpine env sp p st) =
     (newSpineIdOf sp, \<lparr>pos_x = pos_x (position (newSpineNodeOf sp p)) - 150, pos_y = 50\<rparr>, ''top'')"
  by (simp add: extendSpine_def Let_def)

lemma pushRib_nodes:
  "localNodes (pushRib env i ttl descr slot st) = localNodes st @ [ribNode i (fst (snd slot)) ttl descr]"
  by (simp add: pushRib_def Let_def)

lemma pushRib_edges:
  "localEdges (pushRib env i ttl descr slot st) =
     (if fst slot \<noteq> []
      then localEdges st @ [ribEdge (''e-auto-'' @ show_nat (date_now env (calls st))) i (fst slot)
                              (snd (snd slot))]
      else localEdges st)"
  by (simp add: pushRib_def Let_def)

lemma assignSlot_target:
  "fst (fst (assignSlot env st)) \<noteq> [] \<longleftrightarrow>
     fst (checkSlots (localNodes st) (localEdges st) (spineNodesOf (localNodes st))) \<noteq> []
     \<or> find (\<lambda>n. dtype (ndata n) = PROBLEM) (localNodes st) \<noteq> None"
  by (auto simp: assignSlot_def Let_def extendSpine_fst newSpineIdOf_nonempty split: option.splits)

lemma newNodeIdOf_lists:
  "localNodes (snd (newNodeIdOf env i st)) = localNodes st"
  "localEdges (snd (newNodeIdOf env i st)) = localEdges st"
  by (simp_all add: newNodeIdOf_def)

lemma interpretBatch_Cons:
  "interpretBatch ae env (tool # rest) st = interpretBatch ae env rest (applyTool ae env tool st)"
  by (simp add: interpretBatch_def)

section \<open>Invariants on keys\<close>

lemma find_append:
  "find P (xs @ ys) = (case find P xs of None \<Rightarrow> find P ys | Some x \<Rightarrow> Some x)"
  by (induction xs) auto


















lemma length_le_0_filter: "length (filter P ys) \<le> length (filter P xs) \<Longrightarrow> filter P xs = [] \<Longrightarrow> filter P ys = []"
  by simp




















lemma topRib_None:
  "find (isTopRib ns) (filter (\<lambda>e. target e = sid) es) = None \<longleftrightarrow> ribsAbove ns es sid = []"
  by (auto simp: find_None_iff ribsAbove_def filter_empty_conv)

lemma bottomRib_None:
  "find (isBottomRib ns) (filter (\<lambda>e. target e = sid) es) = None \<longleftrightarrow> ribsBelow ns es sid = []"
  by (auto simp: find_None_iff ribsBelow_def filter_empty_conv)

lemma checkSlots_Cons:
  "checkSlots ns es (s # rest) =
     (if ribsAbove ns es (nid s) = []
        then (nid s, \<lparr>pos_x = pos_x (position s) - 150, pos_y = 50\<rparr>, ''top'')
      else if ribsBelow ns es (nid s) = []
        then (nid s, \<lparr>pos_x = pos_x (position s) - 150, pos_y = 550\<rparr>, ''bottom'')
      else checkSlots ns es rest)"
  by (simp add: Let_def topRib_None bottomRib_None)

lemma checkSlots_skip_full:
  "\<forall>q\<in>set pre. ribsAbove ns es (nid q) \<noteq> [] \<and> ribsBelow ns es (nid q) \<noteq> [] \<Longrightarrow>
   checkSlots ns es (pre @ rest) = checkSlots ns es rest"
proof (induction pre)
  case Nil
  then show ?case by simp
next
  case (Cons q pre)
  then show ?case
    unfolding append_Cons checkSlots_Cons by simp
qed




lemma findIndex_first:
  assumes "i \<in> f ` set xs"
  obtains k where "findIndex (\<lambda>x. f x = i) xs = Some k" "k < length xs" "f (xs ! k) = i"
proof -
  from assms obtain x where "x \<in> set xs" "f x = i" by auto
  then obtain k where k: "findIndex (\<lambda>x. f x = i) xs = Some k"
    using findIndex_ex [of x xs "\<lambda>x. f x = i"] by auto
  with findIndex_Some_iff [of "\<lambda>x. f x = i" xs k] that show thesis by blast
qed

lemma findIndex_distinct:
  assumes "distinct (map nid ns)" "p \<in> set ns"
  obtains k where "findIndex (\<lambda>n. nid n = nid p) ns = Some k" "k < length ns" "ns ! k = p"
proof -
  from assms(2) have "nid p \<in> nid ` set ns" by simp
  then obtain k where k: "findIndex (\<lambda>n. nid n = nid p) ns = Some k" "k < length ns"
      "nid (ns ! k) = nid p"
    by (rule findIndex_first)
  from k(2) have "ns ! k \<in> set ns" by simp
  with assms k(3) have "ns ! k = p"
    by (meson distinct_map inj_onD)
  with k that show thesis by blast
qed

lemma find_problem_None:
  "find (\<lambda>n. dtype (ndata n) = PROBLEM) ns = None \<longleftrightarrow> \<not> initialized ns"
  by (auto simp: find_None_iff_set initialized_def)



lemma classify_not_SPINE: "classify ttl \<noteq> SPINE"
  by (simp add: classify_def split: option.splits)




lemma filter_empty_of_length:
  "length (filter P xs) = length ys \<Longrightarrow> ys = [] \<Longrightarrow> filter P xs = []"
  by simp



















section \<open>Slot assignment, step by step\<close>

lemma spineNodesOf_sorted: "sorted (map (\<lambda>n. pos_x (position n)) (spineNodesOf ns))"
  by (simp add: spineNodesOf_def)

lemma find_id_append_new:
  "i \<notin> nid ` set ns \<Longrightarrow> find (\<lambda>n. nid n = i) (ns @ extra) = find (\<lambda>n. nid n = i) extra"
  by (induction ns) auto

lemma find_append_Some: "find P xs = Some x \<Longrightarrow> find P (xs @ ys) = Some x"
  by (simp add: find_append)

lemma spineNodesOf_append_rib:
  "dtype (ndata n) \<noteq> SPINE \<Longrightarrow> spineNodesOf (ns @ [n]) = spineNodesOf ns"
  by (simp add: spineNodesOf_def)

lemma ribNode_fields:
  "nid (ribNode i pos ttl descr) = i" "position (ribNode i pos ttl descr) = pos"
  "dtype (ndata (ribNode i pos ttl descr)) = classify ttl"
  by (simp_all add: ribNode_def)

lemma ribEdge_fields:
  "source (ribEdge x i t h) = i" "target (ribEdge x i t h) = t"
  "sourceHandle (ribEdge x i t h) = Some (if h = ''top'' then ''bottom'' else ''top'')"
  "targetHandle (ribEdge x i t h) = Some (if h = ''top'' then ''rib-top'' else ''rib-bottom'')"
  by (simp_all add: ribEdge_def)

lemma isBottomRib_append:
  "isBottomRib (ns @ [n]) e \<Longrightarrow> isBottomRib ns e \<or> (source e = nid n \<and> pos_y (position n) > 300)"
  by (auto simp: isBottomRib_def find_append split: option.splits if_splits)

lemma isTopRib_append:
  "isTopRib (ns @ [n]) e \<Longrightarrow> isTopRib ns e \<or> (source e = nid n \<and> pos_y (position n) < 300)"
  by (auto simp: isTopRib_def find_append split: option.splits if_splits)

lemma isTopRib_mono: "isTopRib ns e \<Longrightarrow> isTopRib (ns @ extra) e"
  by (auto simp: isTopRib_def find_append split: option.splits)

lemma isBottomRib_mono: "isBottomRib ns e \<Longrightarrow> isBottomRib (ns @ extra) e"
  by (auto simp: isBottomRib_def find_append split: option.splits)

lemma ribsAbove_mono: "ribsAbove ns es sid \<noteq> [] \<Longrightarrow> ribsAbove (ns @ extra) (es @ more_es) sid \<noteq> []"
  by (auto simp: ribsAbove_def filter_empty_conv isTopRib_mono)

lemma ribsAbove_new_rib:
  assumes "i \<notin> nid ` set ns" "nid n = i" "pos_y (position n) < 300" "source r = i" "target r = sid"
  shows "ribsAbove (ns @ [n]) (es @ [r]) sid \<noteq> []"
  using assms by (simp add: ribsAbove_def isTopRib_def find_id_append_new)

lemma ribsBelow_new_rib:
  assumes "i \<notin> nid ` set ns" "nid n = i" "pos_y (position n) > 300" "source r = i" "target r = sid"
  shows "ribsBelow (ns @ [n]) (es @ [r]) sid \<noteq> []"
  using assms by (simp add: ribsBelow_def isBottomRib_def find_id_append_new)

lemma find_id_notin: "i \<notin> nid ` set ns \<Longrightarrow> find (\<lambda>n. nid n = i) ns = None"
  by (induction ns) auto

lemma ribsBelow_still_empty:
  assumes "ribsBelow ns es sid = []" "pos_y (position n) \<le> 300" "source r = nid n"
    "nid n \<notin> nid ` set ns"
  shows "ribsBelow (ns @ [n]) (es @ [r]) sid = []"
proof -
  have "\<not> isBottomRib (ns @ [n]) e" if "e \<in> set es" "target e = sid" for e
  proof
    assume "isBottomRib (ns @ [n]) e"
    from isBottomRib_append [OF this] assms(2) have "isBottomRib ns e" by auto
    with assms(1) that show False by (auto simp: ribsBelow_def filter_empty_conv)
  qed
  moreover have "\<not> isBottomRib (ns @ [n]) r"
  proof
    assume "isBottomRib (ns @ [n]) r"
    from isBottomRib_append [OF this] assms(2) have "isBottomRib ns r" by auto
    then show False
      using find_id_notin [OF assms(4)] by (simp add: isBottomRib_def assms(3))
  qed
  ultimately show ?thesis
    by (auto simp: ribsBelow_def filter_empty_conv)
qed

lemma findIndex_append_Some: "findIndex P xs = Some k \<Longrightarrow> findIndex P (xs @ ys) = Some k"
  by (induction xs arbitrary: k) (auto split: if_splits)

lemma splice1_append: "k < length xs \<Longrightarrow> splice1 k (xs @ ys) = splice1 k xs @ ys"
  by (simp add: splice1_def)

lemma newNodeIdOf_Some: "i \<noteq> [] \<Longrightarrow> newNodeIdOf env (Some i) st = (i, st)"
  by (simp add: newNodeIdOf_def truthy_def or_str_def)

lemma not_duplicate_fresh: "i \<notin> nid ` set ns \<Longrightarrow> \<not> isDuplicate (Some i) ns"
  by (simp add: isDuplicate_iff)

lemma assignSlot_found:
  "fst (checkSlots (localNodes st) (localEdges st) (spineNodesOf (localNodes st))) \<noteq> [] \<Longrightarrow>
   assignSlot env st = (checkSlots (localNodes st) (localEdges st) (spineNodesOf (localNodes st)), st)"
  by (simp add: assignSlot_def Let_def split: option.splits)

lemma assignSlot_full:
  "fst (checkSlots (localNodes st) (localEdges st) (spineNodesOf (localNodes st))) = [] \<Longrightarrow>
   find (\<lambda>n. dtype (ndata n) = PROBLEM) (localNodes st) = Some p \<Longrightarrow>
   assignSlot env st = extendSpine env (spineNodesOf (localNodes st)) p st"
  by (simp add: assignSlot_def Let_def)

lemma addNode_lists:
  assumes "i \<noteq> []" "i \<notin> nid ` set (localNodes st)"
  shows "localNodes (snd (addNodeFishbone env ttl descr (Some i) st))
           = localNodes (snd (assignSlot env st)) @ [ribNode i (fst (snd (fst (assignSlot env st)))) ttl descr]"
    and "localEdges (snd (addNodeFishbone env ttl descr (Some i) st))
           = (if fst (fst (assignSlot env st)) \<noteq> []
              then localEdges (snd (assignSlot env st)) @
                     [ribEdge (''e-auto-'' @ show_nat (date_now env (calls (snd (assignSlot env st)))))
                        i (fst (fst (assignSlot env st))) (snd (snd (fst (assignSlot env st))))]
              else localEdges (snd (assignSlot env st)))"
  using assms
  by (simp_all add: addNodeFishbone_def not_duplicate_fresh placeNode_def Let_def
      newNodeIdOf_Some pushRib_nodes pushRib_edges)

text \<open>A new category goes to the top slot of the first spine node when that slot is free.\<close>

lemma addNode_top:
  assumes sp: "spineNodesOf (localNodes st) = s # rest" and sid: "nid s \<noteq> []"
    and free: "ribsAbove (localNodes st) (localEdges st) (nid s) = []"
    and i: "i \<noteq> []" "i \<notin> nid ` set (localNodes st)"
  shows "localNodes (snd (addNodeFishbone env ttl descr (Some i) st))
           = localNodes st @ [ribNode i \<lparr>pos_x = pos_x (position s) - 150, pos_y = 50\<rparr> ttl descr]"
    and "localEdges (snd (addNodeFishbone env ttl descr (Some i) st))
           = localEdges st @ [ribEdge (''e-auto-'' @ show_nat (date_now env (calls st))) i (nid s) ''top'']"
proof -
  have c: "checkSlots (localNodes st) (localEdges st) (spineNodesOf (localNodes st))
      = (nid s, \<lparr>pos_x = pos_x (position s) - 150, pos_y = 50\<rparr>, ''top'')"
    unfolding sp checkSlots_Cons using free by simp
  have a: "assignSlot env st = ((nid s, \<lparr>pos_x = pos_x (position s) - 150, pos_y = 50\<rparr>, ''top''), st)"
    using assignSlot_found [of st env] sid unfolding c by simp
  show "localNodes (snd (addNodeFishbone env ttl descr (Some i) st))
           = localNodes st @ [ribNode i \<lparr>pos_x = pos_x (position s) - 150, pos_y = 50\<rparr> ttl descr]"
    unfolding addNode_lists(1) [OF i] a by simp
  show "localEdges (snd (addNodeFishbone env ttl descr (Some i) st))
           = localEdges st @ [ribEdge (''e-auto-'' @ show_nat (date_now env (calls st))) i (nid s) ''top'']"
    unfolding addNode_lists(2) [OF i] a using sid by simp
qed

text \<open>It goes to the bottom slot when the top slot is taken and the bottom slot is free.\<close>

lemma addNode_bottom:
  assumes sp: "spineNodesOf (localNodes st) = s # rest" and sid: "nid s \<noteq> []"
    and taken: "ribsAbove (localNodes st) (localEdges st) (nid s) \<noteq> []"
    and free: "ribsBelow (localNodes st) (localEdges st) (nid s) = []"
    and i: "i \<noteq> []" "i \<notin> nid ` set (localNodes st)"
  shows "localNodes (snd (addNodeFishbone env ttl descr (Some i) st))
           = localNodes st @ [ribNode i \<lparr>pos_x = pos_x (position s) - 150, pos_y = 550\<rparr> ttl descr]"
    and "localEdges (snd (addNodeFishbone env ttl descr (Some i) st))
           = localEdges st @ [ribEdge (''e-auto-'' @ show_nat (date_now env (calls st))) i (nid s) ''bottom'']"
proof -
  have c: "checkSlots (localNodes st) (localEdges st) (spineNodesOf (localNodes st))
      = (nid s, \<lparr>pos_x = pos_x (position s) - 150, pos_y = 550\<rparr>, ''bottom'')"
    unfolding sp checkSlots_Cons using free taken by simp
  have a: "assignSlot env st = ((nid s, \<lparr>pos_x = pos_x (position s) - 150, pos_y = 550\<rparr>, ''bottom''), st)"
    using assignSlot_found [of st env] sid unfolding c by simp
  show "localNodes (snd (addNodeFishbone env ttl descr (Some i) st))
           = localNodes st @ [ribNode i \<lparr>pos_x = pos_x (position s) - 150, pos_y = 550\<rparr> ttl descr]"
    unfolding addNode_lists(1) [OF i] a by simp
  show "localEdges (snd (addNodeFishbone env ttl descr (Some i) st))
           = localEdges st @ [ribEdge (''e-auto-'' @ show_nat (date_now env (calls st))) i (nid s) ''bottom'']"
    unfolding addNode_lists(2) [OF i] a using sid by simp
qed

text \<open>
  When every spine node is full and a PROBLEM node exists, the spine is extended: the
  PROBLEM node moves right by 350, a spine node is appended, the first edge into the
  PROBLEM node is removed, and the new category hangs above the new spine node.
\<close>

lemma addNode_extend:
  assumes full: "\<forall>q\<in>set (spineNodesOf (localNodes st)).
        ribsAbove (localNodes st) (localEdges st) (nid q) \<noteq> []
        \<and> ribsBelow (localNodes st) (localEdges st) (nid q) \<noteq> []"
    and ne: "spineNodesOf (localNodes st) \<noteq> []"
    and p: "find (\<lambda>n. dtype (ndata n) = PROBLEM) (localNodes st) = Some p"
    and k: "findIndex (\<lambda>n. nid n = nid p) (localNodes st) = Some k"
    and j: "findIndex (\<lambda>e. target e = nid p) (localEdges st) = Some j"
    and i: "i \<noteq> []" "i \<notin> nid ` set (localNodes st)"
  shows "localNodes (snd (addNodeFishbone env ttl descr (Some i) st))
           = (localNodes st)[k := p\<lparr>position := \<lparr>pos_x = pos_x (position p) + 350,
                                                  pos_y = pos_y (position p)\<rparr>\<rparr>]
             @ [newSpineNodeOf (spineNodesOf (localNodes st)) p,
                ribNode i \<lparr>pos_x = pos_x (position (newSpineNodeOf (spineNodesOf (localNodes st)) p)) - 150,
                           pos_y = 50\<rparr> ttl descr]"
    and "localEdges (snd (addNodeFishbone env ttl descr (Some i) st))
           = splice1 j (localEdges st)
             @ [spineEdge (''s-auto-'' @ show_nat (date_now env (calls st)))
                  (nid (last (spineNodesOf (localNodes st)))) (newSpineIdOf (spineNodesOf (localNodes st))),
                spineEdge (''s-end-'' @ show_nat (date_now env (calls st + 1)))
                  (newSpineIdOf (spineNodesOf (localNodes st))) (nid p),
                ribEdge (''e-auto-'' @ show_nat (date_now env (calls st + 2))) i
                  (newSpineIdOf (spineNodesOf (localNodes st))) ''top'']"
proof -
  let ?sp = "spineNodesOf (localNodes st)"
  from checkSlots_skip_full [OF full, of "[]"]
  have c: "checkSlots (localNodes st) (localEdges st) ?sp = ([], \<lparr>pos_x = 0, pos_y = 0\<rparr>, ''top'')"
    by simp
  have a: "assignSlot env st = extendSpine env ?sp p st"
    using assignSlot_full [of st p env] p unfolding c by simp
  from j have jl: "j < length (localEdges st)" by (simp add: findIndex_Some_iff)
  obtain q qs where sp: "?sp = q # qs" using ne by (cases ?sp) auto
  have en: "localNodes (snd (extendSpine env ?sp p st))
      = (localNodes st)[k := p\<lparr>position := \<lparr>pos_x = pos_x (position p) + 350,
                                              pos_y = pos_y (position p)\<rparr>\<rparr>]
        @ [newSpineNodeOf ?sp p]"
    by (simp add: extendSpine_def Let_def k)
  have ee: "localEdges (snd (extendSpine env ?sp p st))
      = splice1 j (localEdges st)
        @ [spineEdge (''s-auto-'' @ show_nat (date_now env (calls st))) (nid (last ?sp)) (newSpineIdOf ?sp),
           spineEdge (''s-end-'' @ show_nat (date_now env (calls st + 1))) (newSpineIdOf ?sp) (nid p)]"
    using findIndex_append_Some [OF j] jl
    by (simp add: extendSpine_def Let_def sp splice1_append)
  have ec: "calls (snd (extendSpine env ?sp p st)) = calls st + 2"
    by (simp add: extendSpine_def Let_def sp)
  show "localNodes (snd (addNodeFishbone env ttl descr (Some i) st))
           = (localNodes st)[k := p\<lparr>position := \<lparr>pos_x = pos_x (position p) + 350,
                                                  pos_y = pos_y (position p)\<rparr>\<rparr>]
             @ [newSpineNodeOf ?sp p,
                ribNode i \<lparr>pos_x = pos_x (position (newSpineNodeOf ?sp p)) - 150, pos_y = 50\<rparr> ttl descr]"
    unfolding addNode_lists(1) [OF i] a by (simp add: en extendSpine_fst)
  show "localEdges (snd (addNodeFishbone env ttl descr (Some i) st))
           = splice1 j (localEdges st)
             @ [spineEdge (''s-auto-'' @ show_nat (date_now env (calls st))) (nid (last ?sp)) (newSpineIdOf ?sp),
                spineEdge (''s-end-'' @ show_nat (date_now env (calls st + 1))) (newSpineIdOf ?sp) (nid p),
                ribEdge (''e-auto-'' @ show_nat (date_now env (calls st + 2))) i (newSpineIdOf ?sp) ''top'']"
    unfolding addNode_lists(2) [OF i] a
    by (simp add: ee ec extendSpine_fst newSpineIdOf_nonempty)
qed

lemma applyTool_add_node_lists:
  "localNodes (applyTool ae env (add_node ttl descr i) st) = localNodes (snd (addNodeFishbone env ttl descr i st))"
  "localEdges (applyTool ae env (add_node ttl descr i) st) = localEdges (snd (addNodeFishbone env ttl descr i st))"
  by (simp_all add: appendLog_def)

lemma newSpineIdOf_single: "newSpineIdOf [s] = ''spine_2_auto''"
  by code_simp

lemma findIndex_nth_distinct:
  assumes "distinct (map nid ns)" "k < length ns"
  shows "findIndex (\<lambda>n. nid n = nid (ns ! k)) ns = Some k"
proof -
  from assms(2) have "ns ! k \<in> set ns" by simp
  with assms(1) obtain k' where k': "findIndex (\<lambda>n. nid n = nid (ns ! k)) ns = Some k'"
      "k' < length ns" "ns ! k' = ns ! k"
    by (rule findIndex_distinct)
  from assms(1) have "distinct ns" by (simp add: distinct_map)
  with k'(2,3) assms(2) have "k' = k" by (simp add: nth_eq_iff_index_eq)
  with k'(1) show ?thesis by simp
qed

section \<open>Cascade delete\<close>

text \<open>
  C8. Deleting a node id removes the nodes carrying that id and exactly the edges whose
  source or target is that id. Every other node and edge stays, with its multiplicity and
  in its old relative order, and nothing new appears.
\<close>

theorem C8_cascade_delete:
  "set (nodes (handleDeleteNode i d)) = {n \<in> set (nodes d). nid n \<noteq> i}
   \<and> set (edges (handleDeleteNode i d)) = {e \<in> set (edges d). \<not> (source e = i \<or> target e = i)}
   \<and> mset (nodes (handleDeleteNode i d)) = filter_mset (\<lambda>n. nid n \<noteq> i) (mset (nodes d))
   \<and> mset (edges (handleDeleteNode i d))
        = filter_mset (\<lambda>e. \<not> (source e = i \<or> target e = i)) (mset (edges d))
   \<and> subseq (nodes (handleDeleteNode i d)) (nodes d)
   \<and> subseq (edges (handleDeleteNode i d)) (edges d)"
  by (simp add: handleDeleteNode_def)

section \<open>Duplicate suppression\<close>




section \<open>Merging the fields of update-node\<close>

text \<open>
  C10. For an \<^verbatim>\<open>update_node\<close> call whose id is found (at index \<open>k\<close>, the first node
  carrying it): an empty or absent title leaves the title as it was, a non-empty title
  replaces it; a supplied description, the empty string included, replaces the
  description, an absent one leaves it; every other field of the node, every other node
  and every edge are unchanged.
\<close>

theorem C10_update_node_merge:
  assumes "findIndex (\<lambda>n. nid n = i) (localNodes st) = Some k"
  shows "let n = localNodes st ! k;
             st' = applyTool ae env (update_node i ttl descr) st;
             n' = localNodes st' ! k
         in k < length (localNodes st) \<and> nid n = i
          \<and> (ttl = Some [] \<longrightarrow> title (ndata n') = title (ndata n))
          \<and> (ttl = None \<longrightarrow> title (ndata n') = title (ndata n))
          \<and> (\<forall>t. ttl = Some t \<and> t \<noteq> [] \<longrightarrow> title (ndata n') = t)
          \<and> (descr = Some [] \<longrightarrow> description (ndata n') = Some [])
          \<and> (\<forall>d. descr = Some d \<longrightarrow> description (ndata n') = Some d)
          \<and> (descr = None \<longrightarrow> description (ndata n') = description (ndata n))
          \<and> nid n' = nid n \<and> ntype n' = ntype n \<and> position n' = position n
          \<and> did (ndata n') = did (ndata n) \<and> dtype (ndata n') = dtype (ndata n)
          \<and> causes (ndata n') = causes (ndata n) \<and> onEdit (ndata n') = onEdit (ndata n)
          \<and> length (localNodes st') = length (localNodes st)
          \<and> (\<forall>j<length (localNodes st). j \<noteq> k \<longrightarrow> localNodes st' ! j = localNodes st ! j)
          \<and> localEdges st' = localEdges st"
proof -
  from assms have k: "k < length (localNodes st)" "nid (localNodes st ! k) = i"
    by (simp_all add: findIndex_Some_iff)
  show ?thesis
    using k by (simp add: assms Let_def appendLog_def or_str_def)
qed

theorem C10_update_node_merge_witness:
  "findIndex (\<lambda>n. nid n = ''problem'') (localNodes (startBatch initialDoc)) = Some 4
   \<and> title (ndata (localNodes (applyTool addEdge sampleEnv (update_node ''problem'' (Some []) (Some []))
       (startBatch initialDoc)) ! 4)) = ''Problem Statement''
   \<and> description (ndata (localNodes (applyTool addEdge sampleEnv
       (update_node ''problem'' (Some []) (Some [])) (startBatch initialDoc)) ! 4)) = Some []
   \<and> description (ndata (localNodes (startBatch initialDoc) ! 4)) = Some ''Define the issue here''"
proof -
  have a: "findIndex (\<lambda>n. nid n = ''problem'') (localNodes (startBatch initialDoc)) = Some 4"
    by (simp add: startBatch_def initialDoc_def INITIAL_REACTFLOW_NODES_def mkNode_def)
  have n4: "localNodes (startBatch initialDoc) ! 4 =
      mkNode ''problem'' 1350 265 PROBLEM ''Problem Statement'' (Some ''Define the issue here'')"
    by (simp add: startBatch_def initialDoc_def INITIAL_REACTFLOW_NODES_def)
  show ?thesis
    using C10_update_node_merge [OF a, of addEdge sampleEnv "Some []" "Some []"] a n4
    by (simp add: Let_def mkNode_def)
qed

section \<open>Attaching evidence by cause name\<close>

text \<open>
  C6. For an \<^verbatim>\<open>add_evidence\<close> call whose target is found (a node when the target type
  is \<^verbatim>\<open>NODE\<close> or falsy, an edge when it is \<^verbatim>\<open>EDGE\<close>; \<open>k\<close> is the index of the
  first item carrying the id): the new evidence is appended to the evidence list of every
  cause of the target whose name, lower-cased by JavaScript's \<^verbatim>\<open>toLowerCase\<close>, equals
  the lower-cased cause name, and to no other; the other causes, the other fields of the
  target, all other nodes and all other edges are unchanged; when no cause matches, the
  causes are unchanged. This holds whatever the library's case folding is; the witness
  is the example of the specification, on ASCII names.
\<close>

theorem C6_add_evidence_matching:
  "(isNodeTarget targetType \<and> findIndex (\<lambda>n. nid n = targetId) (localNodes st) = Some k \<longrightarrow>
      (let n = localNodes st ! k;
           st' = applyTool ae env (add_evidence targetId targetType causeName name descr) st;
           n' = localNodes st' ! k;
           ev = \<lparr>ev_id = uuidv4 env (calls st), ev_name = name, ev_description = descr\<rparr>
       in length (causes (ndata n')) = length (causes (ndata n))
        \<and> (\<forall>c<length (causes (ndata n)). causes (ndata n') ! c =
             (if lowerCase env (cause_name (causes (ndata n) ! c)) = lowerCase env causeName
              then (causes (ndata n) ! c)\<lparr>evidence := evidence (causes (ndata n) ! c) @ [ev]\<rparr>
              else causes (ndata n) ! c))
        \<and> ((\<forall>r\<in>set (causes (ndata n)). lowerCase env (cause_name r) \<noteq> lowerCase env causeName)
             \<longrightarrow> localNodes st' = localNodes st)
        \<and> n'\<lparr>ndata := (ndata n')\<lparr>causes := causes (ndata n)\<rparr>\<rparr> = n
        \<and> length (localNodes st') = length (localNodes st)
        \<and> (\<forall>j<length (localNodes st). j \<noteq> k \<longrightarrow> localNodes st' ! j = localNodes st ! j)
        \<and> localEdges st' = localEdges st))
   \<and> (targetType = Some ''EDGE'' \<and> findIndex (\<lambda>e. eid e = targetId) (localEdges st) = Some k \<longrightarrow>
      (let e = localEdges st ! k;
           st' = applyTool ae env (add_evidence targetId targetType causeName name descr) st;
           e' = localEdges st' ! k;
           ev = \<lparr>ev_id = uuidv4 env (calls st), ev_name = name, ev_description = descr\<rparr>
       in length (edgeCauses e') = length (edgeCauses e)
        \<and> (\<forall>c<length (edgeCauses e). edgeCauses e' ! c =
             (if lowerCase env (cause_name (edgeCauses e ! c)) = lowerCase env causeName
              then (edgeCauses e ! c)\<lparr>evidence := evidence (edgeCauses e ! c) @ [ev]\<rparr>
              else edgeCauses e ! c))
        \<and> ((\<forall>r\<in>set (edgeCauses e). lowerCase env (cause_name r) \<noteq> lowerCase env causeName)
             \<longrightarrow> edgeCauses e' = edgeCauses e)
        \<and> eid e' = eid e \<and> source e' = source e \<and> target e' = target e \<and> label e' = label e
        \<and> style e' = style e \<and> etype e' = etype e
        \<and> sourceHandle e' = sourceHandle e \<and> targetHandle e' = targetHandle e
        \<and> length (localEdges st') = length (localEdges st)
        \<and> (\<forall>j<length (localEdges st). j \<noteq> k \<longrightarrow> localEdges st' ! j = localEdges st ! j)
        \<and> localNodes st' = localNodes st))"
proof (intro conjI impI)
  assume h: "isNodeTarget targetType \<and> findIndex (\<lambda>n. nid n = targetId) (localNodes st) = Some k"
  then have k: "k < length (localNodes st)"
    by (simp add: findIndex_Some_iff)
  have nm: "\<forall>r\<in>set (causes (ndata (localNodes st ! k))).
        lowerCase env (cause_name r) \<noteq> lowerCase env causeName \<Longrightarrow>
      (localNodes st)[k := (localNodes st ! k)\<lparr>ndata := (ndata (localNodes st ! k))\<lparr>causes :=
          attachEvidence (lowerCase env) causeName \<lparr>ev_id = uuidv4 env (calls st), ev_name = name,
             ev_description = descr\<rparr> (causes (ndata (localNodes st ! k)))\<rparr>\<rparr>] = localNodes st"
    by (simp add: attachEvidence_no_match)
  show "let n = localNodes st ! k;
           st' = applyTool ae env (add_evidence targetId targetType causeName name descr) st;
           n' = localNodes st' ! k;
           ev = \<lparr>ev_id = uuidv4 env (calls st), ev_name = name, ev_description = descr\<rparr>
       in length (causes (ndata n')) = length (causes (ndata n))
        \<and> (\<forall>c<length (causes (ndata n)). causes (ndata n') ! c =
             (if lowerCase env (cause_name (causes (ndata n) ! c)) = lowerCase env causeName
              then (causes (ndata n) ! c)\<lparr>evidence := evidence (causes (ndata n) ! c) @ [ev]\<rparr>
              else causes (ndata n) ! c))
        \<and> ((\<forall>r\<in>set (causes (ndata n)). lowerCase env (cause_name r) \<noteq> lowerCase env causeName)
             \<longrightarrow> localNodes st' = localNodes st)
        \<and> n'\<lparr>ndata := (ndata n')\<lparr>causes := causes (ndata n)\<rparr>\<rparr> = n
        \<and> length (localNodes st') = length (localNodes st)
        \<and> (\<forall>j<length (localNodes st). j \<noteq> k \<longrightarrow> localNodes st' ! j = localNodes st ! j)
        \<and> localEdges st' = localEdges st"
    using h k nm
    by (simp add: Let_def appendLog_def attachEvidence_length attachEvidence_nth)
next
  assume h: "targetType = Some ''EDGE'' \<and> findIndex (\<lambda>e. eid e = targetId) (localEdges st) = Some k"
  then have k: "k < length (localEdges st)"
    by (simp add: findIndex_Some_iff)
  have nt: "\<not> isNodeTarget targetType"
    using h by (simp add: isNodeTarget_def truthy_def)
  show "let e = localEdges st ! k;
           st' = applyTool ae env (add_evidence targetId targetType causeName name descr) st;
           e' = localEdges st' ! k;
           ev = \<lparr>ev_id = uuidv4 env (calls st), ev_name = name, ev_description = descr\<rparr>
       in length (edgeCauses e') = length (edgeCauses e)
        \<and> (\<forall>c<length (edgeCauses e). edgeCauses e' ! c =
             (if lowerCase env (cause_name (edgeCauses e ! c)) = lowerCase env causeName
              then (edgeCauses e ! c)\<lparr>evidence := evidence (edgeCauses e ! c) @ [ev]\<rparr>
              else edgeCauses e ! c))
        \<and> ((\<forall>r\<in>set (edgeCauses e). lowerCase env (cause_name r) \<noteq> lowerCase env causeName)
             \<longrightarrow> edgeCauses e' = edgeCauses e)
        \<and> eid e' = eid e \<and> source e' = source e \<and> target e' = target e \<and> label e' = label e
        \<and> style e' = style e \<and> etype e' = etype e
        \<and> sourceHandle e' = sourceHandle e \<and> targetHandle e' = targetHandle e
        \<and> length (localEdges st') = length (localEdges st)
        \<and> (\<forall>j<length (localEdges st). j \<noteq> k \<longrightarrow> localEdges st' ! j = localEdges st ! j)
        \<and> localNodes st' = localNodes st"
    using h k nt
    by (simp add: Let_def appendLog_def attachEvidence_length attachEvidence_nth
        edgeCauses_setEdgeCauses setEdgeCauses_fields attachEvidence_no_match)
qed

theorem C6_add_evidence_matching_witness:
  "isNodeTarget (Some ''NODE'')
   \<and> findIndex (\<lambda>n. nid n = ''people'') (localNodes evidenceSample) = Some 5
   \<and> map cause_name (causes (ndata (localNodes evidenceSample ! 5))) = [''vendor outage'', ''Vendor Outages'']
   \<and> (let st' = applyTool addEdge sampleEnv
                    (add_evidence ''people'' (Some ''NODE'') ''Vendor Outage'' ''Log 1'' None) evidenceSample;
           cs = causes (ndata (localNodes evidenceSample ! 5));
           cs' = causes (ndata (localNodes st' ! 5))
       in cs' ! 0 = (cs ! 0)\<lparr>evidence := evidence (cs ! 0) @
                       [\<lparr>ev_id = uuidv4 sampleEnv (calls evidenceSample), ev_name = ''Log 1'',
                          ev_description = None\<rparr>]\<rparr>
        \<and> cs' ! 1 = cs ! 1
        \<and> localEdges st' = localEdges evidenceSample)
   \<and> findIndex (\<lambda>e. eid e = ''e_people'') (localEdges evidenceSample) = Some 4
   \<and> map cause_name (edgeCauses (localEdges evidenceSample ! 4)) = [''VENDOR OUTAGE'']
   \<and> (let st' = applyTool addEdge sampleEnv
                    (add_evidence ''e_people'' (Some ''EDGE'') ''Vendor Outage'' ''Log 2'' None) evidenceSample
       in length (evidence (edgeCauses (localEdges st' ! 4) ! 0))
            = Suc (length (evidence (edgeCauses (localEdges evidenceSample ! 4) ! 0)))
        \<and> localNodes st' = localNodes evidenceSample)"
proof -
  have h1: "isNodeTarget (Some ''NODE'')
      \<and> findIndex (\<lambda>n. nid n = ''people'') (localNodes evidenceSample) = Some 5"
    by code_simp
  have h2: "Some ''EDGE'' = Some ''EDGE''
      \<and> findIndex (\<lambda>e. eid e = ''e_people'') (localEdges evidenceSample) = Some 4"
    by code_simp
  have names: "map cause_name (causes (ndata (localNodes evidenceSample ! 5)))
      = [''vendor outage'', ''Vendor Outages'']"
    by code_simp
  have len: "length (causes (ndata (localNodes evidenceSample ! 5))) = 2"
    using arg_cong [OF names, of length] by simp
  have n0: "cause_name (causes (ndata (localNodes evidenceSample ! 5)) ! 0) = ''vendor outage''"
    and n1: "cause_name (causes (ndata (localNodes evidenceSample ! 5)) ! 1) = ''Vendor Outages''"
    by code_simp+
  have l0: "toLowerCase ''vendor outage'' = toLowerCase ''Vendor Outage''"
    and l1: "toLowerCase ''Vendor Outages'' \<noteq> toLowerCase ''Vendor Outage''"
    and l2: "toLowerCase ''VENDOR OUTAGE'' = toLowerCase ''Vendor Outage''"
    by code_simp+
  have lc: "lowerCase sampleEnv = toLowerCase"
    by (simp add: sampleEnv_def)
  have enames: "map cause_name (edgeCauses (localEdges evidenceSample ! 4)) = [''VENDOR OUTAGE'']"
    by code_simp
  have elen: "length (edgeCauses (localEdges evidenceSample ! 4)) = 1"
    using arg_cong [OF enames, of length] by simp
  have e0: "cause_name (edgeCauses (localEdges evidenceSample ! 4) ! 0) = ''VENDOR OUTAGE''"
    by code_simp
  note t1 = C6_add_evidence_matching [of "Some ''NODE''" "''people''" evidenceSample 5 addEdge
      sampleEnv "''Vendor Outage''" "''Log 1''" None, THEN conjunct1, rule_format, OF h1]
  note t2 = C6_add_evidence_matching [of "Some ''EDGE''" "''e_people''" evidenceSample 4 addEdge
      sampleEnv "''Vendor Outage''" "''Log 2''" None, THEN conjunct2, rule_format, OF h2]
  have p1: "let st' = applyTool addEdge sampleEnv
                    (add_evidence ''people'' (Some ''NODE'') ''Vendor Outage'' ''Log 1'' None) evidenceSample;
           cs = causes (ndata (localNodes evidenceSample ! 5));
           cs' = causes (ndata (localNodes st' ! 5))
       in cs' ! 0 = (cs ! 0)\<lparr>evidence := evidence (cs ! 0) @
                       [\<lparr>ev_id = uuidv4 sampleEnv (calls evidenceSample), ev_name = ''Log 1'',
                          ev_description = None\<rparr>]\<rparr>
        \<and> cs' ! 1 = cs ! 1
        \<and> localEdges st' = localEdges evidenceSample"
    using t1 len n0 n1 l0 l1 unfolding Let_def lc by simp
  have p2: "let st' = applyTool addEdge sampleEnv
                    (add_evidence ''e_people'' (Some ''EDGE'') ''Vendor Outage'' ''Log 2'' None) evidenceSample
       in length (evidence (edgeCauses (localEdges st' ! 4) ! 0))
            = Suc (length (evidence (edgeCauses (localEdges evidenceSample ! 4) ! 0)))
        \<and> localNodes st' = localNodes evidenceSample"
    using t2 elen e0 l2 unfolding Let_def lc by simp
  from h1 h2 names enames p1 p2 show ?thesis by blast
qed

section \<open>Classification and placement of a new node\<close>

text \<open>
  C5 (as amended). For an \<^verbatim>\<open>add_node\<close> call that is not suppressed as a duplicate, the
  created node is the last node of the working copy; its kind is PROBLEM exactly when the
  lower-cased title contains \<^verbatim>\<open>problem\<close>, and CATEGORY otherwise. Whatever the kind,
  its position is the one the placement logic assigns (slot loop, then spine extension),
  and a rib edge from the new node to the assigned spine node is appended exactly when a
  spine node is assigned, which happens when the slot loop finds one or a PROBLEM node
  exists.
\<close>

theorem C5_add_node_classification:
  assumes "\<not> isDuplicate desiredId (localNodes st)"
  shows "let r = addNodeFishbone env ttl descr desiredId st;
             st' = snd r;
             newNode = last (localNodes st');
             lay = assignSlot env (snd (newNodeIdOf env desiredId st));
             slot = fst lay
         in localNodes st' = localNodes (snd lay) @ [newNode]
          \<and> nid newNode = fst r
          \<and> (dtype (ndata newNode) = PROBLEM
               \<longleftrightarrow> (\<exists>t p q. ttl = Some t \<and> toLowerCase t = p @ ''problem'' @ q))
          \<and> (dtype (ndata newNode) = CATEGORY
               \<longleftrightarrow> \<not> (\<exists>t p q. ttl = Some t \<and> toLowerCase t = p @ ''problem'' @ q))
          \<and> position newNode = fst (snd slot)
          \<and> (fst slot \<noteq> [] \<longrightarrow>
                (\<exists>e. localEdges st' = localEdges (snd lay) @ [e]
                     \<and> source e = nid newNode \<and> target e = fst slot))
          \<and> (fst slot = [] \<longrightarrow> localEdges st' = localEdges (snd lay))
          \<and> (fst slot \<noteq> [] \<longleftrightarrow>
                fst (checkSlots (localNodes st) (localEdges st) (spineNodesOf (localNodes st))) \<noteq> []
                \<or> find (\<lambda>n. dtype (ndata n) = PROBLEM) (localNodes st) \<noteq> None)"
proof -
  have r: "addNodeFishbone env ttl descr desiredId st = placeNode env ttl descr desiredId st"
    using assms by (simp add: addNodeFishbone_def)
  show ?thesis
    unfolding r
    using classify_PROBLEM [of ttl]
    by (simp add: placeNode_def Let_def pushRib_nodes pushRib_edges ribNode_def ribEdge_def
        classify_CATEGORY assignSlot_target newNodeIdOf_lists)
qed

text \<open>
  C5 as stated fails: on the initial document an \<^verbatim>\<open>add_node\<close> titled
  "Second Problem" is classified PROBLEM, and it is placed in the top slot of a new spine
  node and gets a rib edge to it.
\<close>

theorem C5_problem_unplaced_counterexample:
  "\<not> isDuplicate (Some ''p2'') (localNodes (startBatch initialDoc))
   \<and> (let st' = snd (addNodeFishbone sampleEnv (Some ''Second Problem'') None (Some ''p2'')
                     (startBatch initialDoc))
      in dtype (ndata (last (localNodes st'))) = PROBLEM
       \<and> position (last (localNodes st')) = \<lparr>pos_x = 1300, pos_y = 50\<rparr>
       \<and> source (last (localEdges st')) = ''p2''
       \<and> target (last (localEdges st')) = ''spine_4_auto'')"
  by code_simp

theorem C5_add_node_classification_witness:
  "\<not> isDuplicate (Some ''materials'') (localNodes (startBatch initialDoc))
   \<and> (let r = addNodeFishbone sampleEnv (Some ''Materials'') None (Some ''materials'')
                 (startBatch initialDoc)
      in nid (last (localNodes (snd r))) = ''materials''
       \<and> dtype (ndata (last (localNodes (snd r)))) = CATEGORY)"
proof -
  have h: "\<not> isDuplicate (Some ''materials'') (localNodes (startBatch initialDoc))"
    by code_simp
  have f: "fst (addNodeFishbone sampleEnv (Some ''Materials'') None (Some ''materials'')
                 (startBatch initialDoc)) = ''materials''"
    using h by (simp add: addNodeFishbone_def placeNode_def newNodeIdOf_def truthy_def or_str_def Let_def)
  have "\<not> str_includes (toLowerCase ''Materials'') ''problem''"
    by code_simp
  then have n: "\<not> (\<exists>t p q. Some ''Materials'' = Some t \<and> toLowerCase t = p @ ''problem'' @ q)"
    by (simp add: str_includes_iff)
  show ?thesis
    using C5_add_node_classification [OF h, of sampleEnv "Some ''Materials''" None] h f n
    unfolding Let_def by simp
qed

section \<open>The change log\<close>

lemma applyTool_changeLog:
  "\<exists>line. changeLog (applyTool ae env tool st) = changeLog st @ (if logsLine tool st then [line] else [])"
proof (cases tool)
  case clear_graph
  then show ?thesis by (simp add: logsLine_def appendLog_def)
next
  case (add_node ttl descr i)
  have "changeLog (snd (addNodeFishbone env ttl descr i st)) = changeLog st"
    by (simp add: addNodeFishbone_def placeNode_def Let_def pushRib_def assignSlot_def
        extendSpine_def newNodeIdOf_def split: option.splits list.splits)
  with add_node show ?thesis by (simp add: logsLine_def appendLog_def)
next
  case (connect_nodes s t l)
  then show ?thesis by (simp add: logsLine_def appendLog_def)
next
  case (update_node i ttl descr)
  show ?thesis
    by (cases rule: findIndex_cases [of nid i "localNodes st"])
      (simp_all add: update_node logsLine_def appendLog_def Let_def)
next
  case (add_cause tid tt name descr)
  show ?thesis
  proof (cases "isNodeTarget tt")
    case True
    then show ?thesis
      by (cases rule: findIndex_cases [of nid tid "localNodes st"])
        (simp_all add: add_cause logsLine_def appendLog_def Let_def)
  next
    case False
    then show ?thesis
      by (cases rule: findIndex_cases [of eid tid "localEdges st"])
        (simp_all add: add_cause logsLine_def appendLog_def Let_def)
  qed
next
  case (add_evidence tid tt cn name descr)
  show ?thesis
  proof (cases "isNodeTarget tt")
    case True
    then show ?thesis
      by (cases rule: findIndex_cases [of nid tid "localNodes st"])
        (simp_all add: add_evidence logsLine_def appendLog_def Let_def)
  next
    case False
    then show ?thesis
      by (cases rule: findIndex_cases [of eid tid "localEdges st"])
        (simp_all add: add_evidence logsLine_def appendLog_def Let_def)
  qed
next
  case (unknown_tool name)
  then show ?thesis by (simp add: logsLine_def)
qed

lemma applyTool_changeLog_length:
  "length (changeLog (applyTool ae env tool st)) = length (changeLog st) + (if logsLine tool st then 1 else 0)"
  using applyTool_changeLog [of ae env tool st] by auto

lemma interpretBatch_changeLog_length:
  "length (changeLog (interpretBatch ae env tools st)) = length (changeLog st) + countLogged ae env tools st"
proof (induction tools arbitrary: st)
  case Nil
  then show ?case by (simp add: interpretBatch_def)
next
  case (Cons tool rest)
  show ?case
    unfolding interpretBatch_Cons Cons.IH
    by (simp add: applyTool_changeLog_length)
qed

text \<open>
  C7 (as amended). Every tool call appends at most one line to the change log, and exactly
  one when \<open>logsLine\<close> holds: always for \<^verbatim>\<open>clear_graph\<close>, \<^verbatim>\<open>add_node\<close> (a
  duplicate-suppressed one included) and \<^verbatim>\<open>connect_nodes\<close> (whatever its ids);
  for \<^verbatim>\<open>update_node\<close>, \<^verbatim>\<open>add_cause\<close> and \<^verbatim>\<open>add_evidence\<close> exactly when
  the target id is found (for \<^verbatim>\<open>add_evidence\<close> also when no cause name matches);
  never for an unknown tool. The log of a batch has one line per such call.
\<close>

theorem C7_change_log_lines:
  "(\<exists>line. changeLog (applyTool ae env tool st) = changeLog st @ (if logsLine tool st then [line] else []))
   \<and> length (changeLog (interpretBatch ae env tools st)) = length (changeLog st) + countLogged ae env tools st
   \<and> logsLine (add_node ttl descr i) st \<and> logsLine (connect_nodes s t l) st \<and> logsLine clear_graph st
   \<and> \<not> logsLine (unknown_tool name) st
   \<and> (isNodeTarget tt \<and> tid \<in> nid ` set (localNodes st) \<longrightarrow> logsLine (add_evidence tid tt cn ename descr) st)"
  using applyTool_changeLog [of ae env tool st] interpretBatch_changeLog_length [of ae env tools st]
  by (simp add: logsLine_def)

text \<open>
  C7 as stated fails: an \<^verbatim>\<open>add_evidence\<close> whose cause name matches no cause of the
  target node leaves nodes and edges unchanged and still appends a line.
\<close>

theorem C7_noop_logged_counterexample:
  "localNodes (applyTool addEdge sampleEnv
       (add_evidence ''people'' (Some ''NODE'') ''no such cause'' ''Log'' None) evidenceSample)
     = localNodes evidenceSample
   \<and> localEdges (applyTool addEdge sampleEnv
       (add_evidence ''people'' (Some ''NODE'') ''no such cause'' ''Log'' None) evidenceSample)
     = localEdges evidenceSample
   \<and> length (changeLog (applyTool addEdge sampleEnv
       (add_evidence ''people'' (Some ''NODE'') ''no such cause'' ''Log'' None) evidenceSample))
     = Suc (length (changeLog evidenceSample))"
proof -
  have idx: "findIndex (\<lambda>n. nid n = ''people'') (localNodes evidenceSample) = Some 5"
    by code_simp
  have nt: "isNodeTarget (Some ''NODE'')"
    by (simp add: isNodeTarget_def)
  have names: "map cause_name (causes (ndata (localNodes evidenceSample ! 5)))
      = [''vendor outage'', ''Vendor Outages'']"
    by code_simp
  have l: "toLowerCase ''vendor outage'' \<noteq> toLowerCase ''no such cause''"
    "toLowerCase ''Vendor Outages'' \<noteq> toLowerCase ''no such cause''"
    by code_simp+
  have lc: "lowerCase sampleEnv = toLowerCase"
    by (simp add: sampleEnv_def)
  have nm: "\<forall>r\<in>set (causes (ndata (localNodes evidenceSample ! 5))).
      lowerCase sampleEnv (cause_name r) \<noteq> lowerCase sampleEnv ''no such cause''"
    unfolding lc
  proof
    fix r assume "r \<in> set (causes (ndata (localNodes evidenceSample ! 5)))"
    then have "cause_name r \<in> set (map cause_name (causes (ndata (localNodes evidenceSample ! 5))))"
      by simp
    then have "cause_name r = ''vendor outage'' \<or> cause_name r = ''Vendor Outages''"
      unfolding names by simp
    with l show "toLowerCase (cause_name r) \<noteq> toLowerCase ''no such cause''" by auto
  qed
  show ?thesis
    by (simp add: idx nt Let_def appendLog_def attachEvidence_no_match [OF nm])
qed

theorem C7_change_log_lines_witness:
  "isNodeTarget (Some ''NODE'') \<and> ''people'' \<in> nid ` set (localNodes evidenceSample)
   \<and> logsLine (add_evidence ''people'' (Some ''NODE'') ''no such cause'' ''Log'' None) evidenceSample
   \<and> length (changeLog (interpretBatch addEdge sampleEnv
        [ add_node (Some ''People'') None (Some ''people''),
          connect_nodes ''ghost'' ''problem'' None,
          update_node ''nobody'' (Some ''Title'') None ] (startBatch initialDoc))) = 2"
proof -
  have h: "isNodeTarget (Some ''NODE'') \<and> ''people'' \<in> nid ` set (localNodes evidenceSample)"
    by code_simp
  have c: "countLogged addEdge sampleEnv
        [ add_node (Some ''People'') None (Some ''people''),
          connect_nodes ''ghost'' ''problem'' None,
          update_node ''nobody'' (Some ''Title'') None ] (startBatch initialDoc) = 2"
    by code_simp
  have l: "changeLog (startBatch initialDoc) = []"
    by (simp add: startBatch_def)
  show ?thesis
    using C7_change_log_lines [where ae = addEdge and env = sampleEnv and tool = clear_graph
          and st = "startBatch initialDoc"
          and tools = "[ add_node (Some ''People'') None (Some ''people''),
                         connect_nodes ''ghost'' ''problem'' None,
                         update_node ''nobody'' (Some ''Title'') None ]"]
      C7_change_log_lines [where st = evidenceSample and tt = "Some ''NODE''"
          and tid = "''people''" and cn = "''no such cause''" and ename = "''Log''"
          and descr = None and tools = "[]"]
      h c l
    by simp
qed

section \<open>connect-nodes\<close>

text \<open>
  C1 (as amended). A \<^verbatim>\<open>connect_nodes\<close> call raises no error and leaves the node list
  unchanged. The edge list is what \<^verbatim>\<open>addEdge\<close> returns for the new edge and the old
  edge list: it does not depend on the node list, so not on whether the two ids name
  existing nodes. With reactflow's \<^verbatim>\<open>addEdge\<close> the call is skipped exactly when the
  source id or the target id is empty or an edge with the same source, target and handles
  exists; otherwise the new edge, with empty causes, is appended.
\<close>

theorem C1_connect_nodes_unchecked:
  "localNodes (applyTool ae env (connect_nodes s t l) st) = localNodes st
   \<and> localEdges (applyTool ae env (connect_nodes s t l) (st\<lparr>localNodes := ns\<rparr>))
       = localEdges (applyTool ae env (connect_nodes s t l) st)
   \<and> (let e = aiEdge env (calls st) s t l;
           es' = localEdges (applyTool addEdge env (connect_nodes s t l) st)
       in source e = s \<and> target e = t \<and> edgeCauses e = []
        \<and> es' = (if s = [] \<or> t = [] \<or> connectionExists e (localEdges st)
                 then localEdges st else localEdges st @ [e]))"
  by (simp add: appendLog_def aiEdge_def edgeCauses_def addEdge_def Let_def)

text \<open>
  C1 as stated fails: on the initial document, which has no node \<^verbatim>\<open>ghost\<close>, connecting
  \<^verbatim>\<open>ghost\<close> to \<^verbatim>\<open>problem\<close> appends an edge.
\<close>

theorem C1_missing_endpoint_counterexample:
  "''ghost'' \<notin> nid ` set (nodes initialDoc)
   \<and> length (edges initialDoc) = 10
   \<and> length (edges (runBatch addEdge sampleEnv [connect_nodes ''ghost'' ''problem'' None] initialDoc)) = 11
   \<and> source (last (edges (runBatch addEdge sampleEnv [connect_nodes ''ghost'' ''problem'' None]
        initialDoc))) = ''ghost''"
  by code_simp

section \<open>Import validation\<close>

lemma asArray_Some_iff: "asArray v = Some xs \<longleftrightarrow> v = Some (JArr xs)"
  by (cases v rule: asArray.cases) auto

lemma isArrayField_iff:
  "isArrayField key data \<longleftrightarrow> (\<exists>v xs. getProp key data = Inr v \<and> asArray v = Some xs)"
  by (cases data) (auto simp: isArrayField_def getProp_def)

lemma handleFileChange_invalid:
  assumes "\<not> validPayload (parse content)"
  shows "handleFileChange parse content st = addMessage ''Invalid file format.'' st
       \<or> handleFileChange parse content st = addMessage ''Error parsing file.'' st"
proof (cases "parse content")
  case None
  then show ?thesis by (simp add: handleFileChange_def)
next
  case (Some data)
  with assms have "\<not> isArrayField ''nodes'' data \<or> \<not> isArrayField ''edges'' data"
    by (simp add: validPayload_def)
  then show ?thesis
    by (auto simp: handleFileChange_def Some isArrayField_iff split: sum.splits option.splits)
qed

lemma handleFileChange_kept_or_valid:
  "validPayload (parse content)
   \<or> handleFileChange parse content st = addMessage ''Invalid file format.'' st
   \<or> handleFileChange parse content st = addMessage ''Error parsing file.'' st"
  using handleFileChange_invalid [of parse content st] by blast

text \<open>
  C9. When the parsed payload does not have both a \<^verbatim>\<open>nodes\<close> and an \<^verbatim>\<open>edges\<close>
  field that are arrays (unparseable text included), the stored node and edge lists
  are what they were and one message is reported: "Invalid file format." or "Error
  parsing file."; so the stored lists change only for a payload that passes the
  validation. Unparseable text is reported as "Error parsing file.".
\<close>

theorem C9_import_validation:
  "(\<not> validPayload (parse content) \<longrightarrow>
      storeNodes (handleFileChange parse content st) = storeNodes st
      \<and> storeEdges (handleFileChange parse content st) = storeEdges st
      \<and> (messages (handleFileChange parse content st) = messages st @ [''Invalid file format.'']
         \<or> messages (handleFileChange parse content st) = messages st @ [''Error parsing file.'']))
   \<and> (storeNodes (handleFileChange parse content st) \<noteq> storeNodes st
       \<or> storeEdges (handleFileChange parse content st) \<noteq> storeEdges st
       \<longrightarrow> validPayload (parse content))
   \<and> (parse content = None \<longrightarrow>
        messages (handleFileChange parse content st) = messages st @ [''Error parsing file.''])"
proof -
  have a: "\<not> validPayload (parse content) \<Longrightarrow>
      storeNodes (handleFileChange parse content st) = storeNodes st
      \<and> storeEdges (handleFileChange parse content st) = storeEdges st
      \<and> (messages (handleFileChange parse content st) = messages st @ [''Invalid file format.'']
         \<or> messages (handleFileChange parse content st) = messages st @ [''Error parsing file.''])"
    using handleFileChange_invalid [of parse content st]
    by (auto simp: addMessage_def)
  have b: "parse content = None \<Longrightarrow>
        messages (handleFileChange parse content st) = messages st @ [''Error parsing file.'']"
    by (simp add: handleFileChange_def addMessage_def)
  from a b show ?thesis by blast
qed

theorem C9_import_validation_witness:
  "\<not> validPayload (sampleParse ''{\"nodes\":{}}'')
   \<and> storeNodes (handleFileChange sampleParse ''{\"nodes\":{}}'' sampleApp) = storeNodes sampleApp
   \<and> storeEdges (handleFileChange sampleParse ''{\"nodes\":{}}'' sampleApp) = storeEdges sampleApp
   \<and> sampleParse ''not json'' = None
   \<and> messages (handleFileChange sampleParse ''not json'' sampleApp) = [''Error parsing file.'']
   \<and> storeEdges (handleFileChange sampleParse ''{\"nodes\":[{\"id\":\"a\"}],\"edges\":[]}'' sampleApp)
        \<noteq> storeEdges sampleApp
   \<and> validPayload (sampleParse ''{\"nodes\":[{\"id\":\"a\"}],\"edges\":[]}'')"
proof -
  have h1: "\<not> validPayload (sampleParse ''{\"nodes\":{}}'')"
    by (simp add: sampleParse_def validPayload_def isArrayField_def)
  have h2: "sampleParse ''not json'' = None"
    by (simp add: sampleParse_def)
  have h3: "storeEdges (handleFileChange sampleParse ''{\"nodes\":[{\"id\":\"a\"}],\"edges\":[]}'' sampleApp)
        \<noteq> storeEdges sampleApp"
    by (simp add: sampleParse_def handleFileChange_def getProp_def injectOnEdit_def spread_def
        addMessage_def sampleApp_def)
  have m: "messages sampleApp = []"
    by (simp add: sampleApp_def)
  note t1 = C9_import_validation [of sampleParse "''{\"nodes\":{}}''" sampleApp, THEN conjunct1, rule_format, OF h1]
  note t2 = C9_import_validation [of sampleParse "''not json''" sampleApp,
      THEN conjunct2, THEN conjunct2, rule_format, OF h2]
  note t3 = C9_import_validation [of sampleParse "''{\"nodes\":[{\"id\":\"a\"}],\"edges\":[]}''" sampleApp,
      THEN conjunct2, THEN conjunct1, rule_format, OF disjI2, OF h3]
  from h1 h2 h3 t1 t2 t3 m show ?thesis by simp
qed

section \<open>Invariant preservation\<close>




text \<open>
  The conditions on the tool calls cannot be dropped. From the initial document, a
  \<^verbatim>\<open>connect_nodes\<close> naming a missing node leaves an edge without a source node; a
  \<^verbatim>\<open>connect_nodes\<close> from a category above the baseline into a spine node whose
  upper slot is taken leaves that spine node with two ribs from above; three
  \<^verbatim>\<open>add_node\<close> calls without id within one millisecond get the same id, so that
  the ids are no longer distinct and the slots of the new spine node are exceeded.
\<close>

theorem inadmissible_calls_break_invariants:
  "\<not> toolAdmissible sampleEnv (connect_nodes ''ghost'' ''problem'' None) (startBatch initialDoc)
   \<and> \<not> endpointsExist
          (nodes (runBatch addEdge sampleEnv [connect_nodes ''ghost'' ''problem'' None] initialDoc))
          (edges (runBatch addEdge sampleEnv [connect_nodes ''ghost'' ''problem'' None] initialDoc))
   \<and> \<not> toolAdmissible sampleEnv (connect_nodes ''process'' ''spine_1'' None) (startBatch initialDoc)
   \<and> \<not> slotsRespected
          (nodes (runBatch addEdge sampleEnv [connect_nodes ''process'' ''spine_1'' None] initialDoc))
          (edges (runBatch addEdge sampleEnv [connect_nodes ''process'' ''spine_1'' None] initialDoc))
   \<and> \<not> batchAdmissible addEdge frozenClock threeCategories (startBatch initialDoc)
   \<and> \<not> distinct (map nid (nodes (runBatch addEdge frozenClock threeCategories initialDoc)))
   \<and> \<not> slotsRespected
          (nodes (runBatch addEdge frozenClock threeCategories initialDoc))
          (edges (runBatch addEdge frozenClock threeCategories initialDoc))"
  by code_simp

section \<open>Slot-fill order\<close>

text \<open>
  The placement the specification describes, for new nodes that get distinct new ids: in
  a document whose only non-tail spine node \<open>s\<close> has both slots free and that has a
  PROBLEM node \<open>p\<close>, the first new node goes above \<open>s\<close>, the second below it, and the
  third extends the spine: \<open>p\<close> moves right by 350, the spine node \<^verbatim>\<open>spine_2_auto\<close> is
  appended, the first edge into \<open>p\<close> is replaced by an edge from \<open>s\<close> to the new spine
  node and one from the new spine node to \<open>p\<close>, and the third node hangs above the new
  spine node. (That the slot loop picks the first spine node, in ascending x, with a free
  slot, top before bottom, is \<open>checkSlots_first\<close> with \<open>spineNodesOf_sorted\<close>.)
\<close>

theorem slot_fill_order_distinct_ids:
  assumes sp: "spineNodesOf (localNodes st) = [s]" and sid: "nid s \<noteq> []"
    and free: "ribsAbove (localNodes st) (localEdges st) (nid s) = []"
              "ribsBelow (localNodes st) (localEdges st) (nid s) = []"
    and p: "find (\<lambda>n. dtype (ndata n) = PROBLEM) (localNodes st) = Some p"
    and dist: "distinct (map nid (localNodes st))"
    and k: "k < length (localNodes st)" "localNodes st ! k = p"
    and j: "findIndex (\<lambda>e. target e = nid p) (localEdges st) = Some j"
    and ne: "i1 \<noteq> []" "i2 \<noteq> []" "i3 \<noteq> []"
    and di: "distinct [i1, i2, i3]"
    and fresh: "i1 \<notin> nid ` set (localNodes st)" "i2 \<notin> nid ` set (localNodes st)"
               "i3 \<notin> nid ` set (localNodes st)"
  shows "let st1 = applyTool ae env (add_node t1 d1 (Some i1)) st;
             st2 = applyTool ae env (add_node t2 d2 (Some i2)) st1;
             st3 = applyTool ae env (add_node t3 d3 (Some i3)) st2;
             above = \<lparr>pos_x = pos_x (position s) - 150, pos_y = 50\<rparr>;
             below = \<lparr>pos_x = pos_x (position s) - 150, pos_y = 550\<rparr>;
             spine2 = newSpineNodeOf [s] p;
             moved = p\<lparr>position := \<lparr>pos_x = pos_x (position p) + 350, pos_y = pos_y (position p)\<rparr>\<rparr>
         in localNodes st1 = localNodes st @ [ribNode i1 above t1 d1]
          \<and> (\<exists>r1. localEdges st1 = localEdges st @ [r1] \<and> source r1 = i1 \<and> target r1 = nid s)
          \<and> localNodes st2 = localNodes st @ [ribNode i1 above t1 d1, ribNode i2 below t2 d2]
          \<and> (\<exists>r1 r2. localEdges st2 = localEdges st @ [r1, r2] \<and> source r2 = i2 \<and> target r2 = nid s)
          \<and> localNodes st3 = (localNodes st)[k := moved]
               @ [ribNode i1 above t1 d1, ribNode i2 below t2 d2, spine2,
                  ribNode i3 \<lparr>pos_x = pos_x (position spine2) - 150, pos_y = 50\<rparr> t3 d3]
          \<and> dtype (ndata spine2) = SPINE \<and> nid spine2 = ''spine_2_auto''
          \<and> (\<exists>r1 r2 a b c. localEdges st3 = splice1 j (localEdges st) @ [r1, r2, a, b, c]
                \<and> source a = nid s \<and> target a = nid spine2
                \<and> source b = nid spine2 \<and> target b = nid p
                \<and> source c = i3 \<and> target c = nid spine2)"
proof -
  define ns where "ns = localNodes st"
  define es where "es = localEdges st"
  define above where "above = \<lparr>pos_x = pos_x (position s) - 150, pos_y = 50\<rparr>"
  define below where "below = \<lparr>pos_x = pos_x (position s) - 150, pos_y = 550\<rparr>"
  define N1 where "N1 = ribNode i1 above t1 d1"
  define N2 where "N2 = ribNode i2 below t2 d2"
  define st1 where "st1 = applyTool ae env (add_node t1 d1 (Some i1)) st"
  define st2 where "st2 = applyTool ae env (add_node t2 d2 (Some i2)) st1"
  define st3 where "st3 = applyTool ae env (add_node t3 d3 (Some i3)) st2"
  define r1 where "r1 = ribEdge (''e-auto-'' @ show_nat (date_now env (calls st))) i1 (nid s) ''top''"
  define r2 where "r2 = ribEdge (''e-auto-'' @ show_nat (date_now env (calls st1))) i2 (nid s) ''bottom''"
  have n1: "localNodes st1 = ns @ [N1]" and e1: "localEdges st1 = es @ [r1]"
    unfolding st1_def applyTool_add_node_lists N1_def above_def r1_def ns_def es_def
    using addNode_top [OF sp sid free(1) ne(1) fresh(1)] by simp_all
  have N1f: "nid N1 = i1" "pos_y (position N1) = 50" "dtype (ndata N1) \<noteq> SPINE"
    by (simp_all add: N1_def ribNode_fields above_def classify_not_SPINE)
  have N2f: "nid N2 = i2" "pos_y (position N2) = 550" "dtype (ndata N2) \<noteq> SPINE"
    by (simp_all add: N2_def ribNode_fields below_def classify_not_SPINE)
  have r1f: "source r1 = i1" "target r1 = nid s"
    by (simp_all add: r1_def ribEdge_fields)
  have r2f: "source r2 = i2" "target r2 = nid s"
    by (simp_all add: r2_def ribEdge_fields)
  \<comment> \<open>the state after the first command\<close>
  have sp1: "spineNodesOf (localNodes st1) = [s]"
    unfolding n1 using spineNodesOf_append_rib [OF N1f(3), of ns] sp by (simp add: ns_def)
  have taken1: "ribsAbove (localNodes st1) (localEdges st1) (nid s) \<noteq> []"
    unfolding n1 e1
    by (rule ribsAbove_new_rib [of i1]) (use fresh(1) N1f r1f in \<open>simp_all add: ns_def\<close>)
  have free1: "ribsBelow (localNodes st1) (localEdges st1) (nid s) = []"
    unfolding n1 e1
    by (rule ribsBelow_still_empty) (use free(2) fresh(1) N1f r1f in \<open>simp_all add: ns_def es_def\<close>)
  have fresh1: "i2 \<notin> nid ` set (localNodes st1)" "i3 \<notin> nid ` set (localNodes st1)"
    unfolding n1 using fresh di N1f(1) by (auto simp: ns_def)
  have n2: "localNodes st2 = ns @ [N1, N2]" and e2: "localEdges st2 = es @ [r1, r2]"
    unfolding st2_def applyTool_add_node_lists N2_def below_def r2_def
    using addNode_bottom [OF sp1 sid taken1 free1 ne(2) fresh1(1)] n1 e1 by simp_all
  \<comment> \<open>the state after the second command\<close>
  have n2': "localNodes st2 = localNodes st1 @ [N2]" and e2': "localEdges st2 = localEdges st1 @ [r2]"
    by (simp_all add: n1 n2 e1 e2)
  have sp2: "spineNodesOf (localNodes st2) = [s]"
    unfolding n2' using spineNodesOf_append_rib [OF N2f(3), of "localNodes st1"] sp1 by simp
  have above2: "ribsAbove (localNodes st2) (localEdges st2) (nid s) \<noteq> []"
    unfolding n2' e2' by (rule ribsAbove_mono [OF taken1])
  have below2: "ribsBelow (localNodes st2) (localEdges st2) (nid s) \<noteq> []"
    unfolding n2' e2'
    by (rule ribsBelow_new_rib [of i2]) (use fresh1(1) N2f r2f in simp_all)
  have full2: "\<forall>q\<in>set (spineNodesOf (localNodes st2)).
        ribsAbove (localNodes st2) (localEdges st2) (nid q) \<noteq> []
        \<and> ribsBelow (localNodes st2) (localEdges st2) (nid q) \<noteq> []"
    unfolding sp2 using above2 below2 by simp
  have ne2: "spineNodesOf (localNodes st2) \<noteq> []"
    unfolding sp2 by simp
  have p2: "find (\<lambda>n. dtype (ndata n) = PROBLEM) (localNodes st2) = Some p"
    unfolding n2 using p by (simp add: ns_def find_append_Some)
  have k0: "findIndex (\<lambda>n. nid n = nid p) ns = Some k"
    using findIndex_nth_distinct [OF dist k(1)] k(2) by (simp add: ns_def)
  have k2: "findIndex (\<lambda>n. nid n = nid p) (localNodes st2) = Some k"
    unfolding n2 by (rule findIndex_append_Some [OF k0])
  have j2: "findIndex (\<lambda>e. target e = nid p) (localEdges st2) = Some j"
    unfolding e2 using j by (simp add: es_def findIndex_append_Some)
  have fresh2: "i3 \<notin> nid ` set (localNodes st2)"
    unfolding n2 using fresh di N1f(1) N2f(1) by (auto simp: ns_def)
  from j have jl: "j < length es" by (simp add: findIndex_Some_iff es_def)
  have kl: "k < length ns" using k(1) by (simp add: ns_def)
  note ext = addNode_extend [OF full2 ne2 p2 k2 j2 ne(3) fresh2, of env t3 d3]
  have n3: "localNodes st3 = ns[k := p\<lparr>position := \<lparr>pos_x = pos_x (position p) + 350,
                                                    pos_y = pos_y (position p)\<rparr>\<rparr>]
       @ [N1, N2, newSpineNodeOf [s] p,
          ribNode i3 \<lparr>pos_x = pos_x (position (newSpineNodeOf [s] p)) - 150, pos_y = 50\<rparr> t3 d3]"
    unfolding st3_def applyTool_add_node_lists ext(1) sp2
    using kl by (simp add: n2 list_update_append1)
  have e3: "localEdges st3 = splice1 j es @ [r1, r2,
       spineEdge (''s-auto-'' @ show_nat (date_now env (calls st2))) (nid s) (newSpineIdOf [s]),
       spineEdge (''s-end-'' @ show_nat (date_now env (calls st2 + 1))) (newSpineIdOf [s]) (nid p),
       ribEdge (''e-auto-'' @ show_nat (date_now env (calls st2 + 2))) i3 (newSpineIdOf [s]) ''top'']"
    unfolding st3_def applyTool_add_node_lists ext(2) sp2
    using jl by (simp add: e2 splice1_append)
  have sf: "dtype (ndata (newSpineNodeOf [s] p)) = SPINE" "nid (newSpineNodeOf [s] p) = ''spine_2_auto''"
    by (simp_all add: newSpineNodeOf_def newSpineIdOf_single)
  have c1: "\<exists>r1. localEdges st1 = es @ [r1] \<and> source r1 = i1 \<and> target r1 = nid s"
    using e1 r1f by blast
  have c2: "\<exists>r1 r2. localEdges st2 = es @ [r1, r2] \<and> source r2 = i2 \<and> target r2 = nid s"
    using e2 r2f by blast
  have c3: "\<exists>r1 r2 a b c. localEdges st3 = splice1 j es @ [r1, r2, a, b, c]
                \<and> source a = nid s \<and> target a = nid (newSpineNodeOf [s] p)
                \<and> source b = nid (newSpineNodeOf [s] p) \<and> target b = nid p
                \<and> source c = i3 \<and> target c = nid (newSpineNodeOf [s] p)"
    unfolding e3 sf(2)
    by (intro exI conjI, rule refl) (simp_all add: spineEdge_def ribEdge_def newSpineIdOf_single)
  from n1 n2 n3 c1 c2 c3 sf show ?thesis
    unfolding Let_def st1_def [symmetric] st2_def [symmetric] st3_def [symmetric]
      ns_def [symmetric] es_def [symmetric] above_def [symmetric] below_def [symmetric]
      N1_def [symmetric] N2_def [symmetric]
    by blast
qed

theorem slot_fill_order_distinct_ids_witness:
  "map (\<lambda>n. (nid n, pos_x (position n), pos_y (position n)))
     (localNodes (interpretBatch addEdge frozenClock threeCategoriesWithIds (startBatch oneSpineDoc)))
   = [ (''spine_tail'', 50, 300), (''spine_1'', 400, 300), (''problem'', 1000, 265),
       (''materials'', 250, 50), (''methods'', 250, 550), (''spine_2_auto'', 750, 300),
       (''machines'', 600, 50) ]"
proof -
  let ?st = "startBatch oneSpineDoc"
  let ?s = "mkNode ''spine_1'' 400 300 SPINE [] None"
  let ?p = "mkNode ''problem'' 650 265 PROBLEM ''Problem Statement'' None"
  have ns: "localNodes ?st = [mkNode ''spine_tail'' 50 300 SPINE [] None, ?s, ?p]"
    by (simp add: startBatch_def oneSpineDoc_def)
  have sp: "spineNodesOf (localNodes ?st) = [?s]"
    unfolding ns by (simp add: spineNodesOf_def mkNode_def)
  have sid: "nid ?s \<noteq> []" by (simp add: mkNode_def)
  have free: "ribsAbove (localNodes ?st) (localEdges ?st) (nid ?s) = []"
    "ribsBelow (localNodes ?st) (localEdges ?st) (nid ?s) = []"
    by code_simp+
  have p: "find (\<lambda>n. dtype (ndata n) = PROBLEM) (localNodes ?st) = Some ?p"
    unfolding ns by (simp add: mkNode_def)
  have dist: "distinct (map nid (localNodes ?st))"
    unfolding ns by (simp add: mkNode_def)
  have k: "2 < length (localNodes ?st)" "localNodes ?st ! 2 = ?p"
    unfolding ns by simp_all
  have j: "findIndex (\<lambda>e. target e = nid ?p) (localEdges ?st) = Some 1"
    by code_simp
  have ne: "''materials'' \<noteq> []" "''methods'' \<noteq> []" "''machines'' \<noteq> []" by simp_all
  have di: "distinct [''materials'', ''methods'', ''machines'']" by simp
  have fresh: "''materials'' \<notin> nid ` set (localNodes ?st)" "''methods'' \<notin> nid ` set (localNodes ?st)"
    "''machines'' \<notin> nid ` set (localNodes ?st)"
    unfolding ns by (simp_all add: mkNode_def)
  have run: "interpretBatch addEdge frozenClock threeCategoriesWithIds ?st
      = applyTool addEdge frozenClock (add_node (Some ''Machines'') None (Some ''machines''))
          (applyTool addEdge frozenClock (add_node (Some ''Methods'') None (Some ''methods''))
            (applyTool addEdge frozenClock (add_node (Some ''Materials'') None (Some ''materials'')) ?st))"
    by (simp add: interpretBatch_def threeCategoriesWithIds_def)
  from slot_fill_order_distinct_ids [OF sp sid free p dist k j ne di fresh,
      of addEdge frozenClock "Some ''Materials''" None "Some ''Methods''" None "Some ''Machines''" None]
  have "localNodes (interpretBatch addEdge frozenClock threeCategoriesWithIds ?st)
      = (localNodes ?st)[2 := ?p\<lparr>position := \<lparr>pos_x = pos_x (position ?p) + 350,
                                               pos_y = pos_y (position ?p)\<rparr>\<rparr>]
        @ [ribNode ''materials'' \<lparr>pos_x = pos_x (position ?s) - 150, pos_y = 50\<rparr> (Some ''Materials'') None,
           ribNode ''methods'' \<lparr>pos_x = pos_x (position ?s) - 150, pos_y = 550\<rparr> (Some ''Methods'') None,
           newSpineNodeOf [?s] ?p,
           ribNode ''machines'' \<lparr>pos_x = pos_x (position (newSpineNodeOf [?s] ?p)) - 150, pos_y = 50\<rparr>
             (Some ''Machines'') None]"
    unfolding run Let_def by blast
  then show ?thesis
    unfolding ns by (simp add: mkNode_def ribNode_def newSpineNodeOf_def newSpineIdOf_single)
qed

text \<open>
  C3. The slot-fill order of three consecutive category \<^verbatim>\<open>add_node\<close> calls fails when
  the calls carry no id and run within one millisecond: the id generated from
  \<^verbatim>\<open>Date.now()\<close> is the same for the three nodes, the slot loop resolves both ribs of \<^verbatim>\<open>spine_1\<close> to the
  first of them (at \<open>y = 50\<close>) and finds no rib from below. On the one-spine document
  the third node is placed below \<^verbatim>\<open>spine_1\<close> again, at (250, 550): no spine node is
  created and the PROBLEM node stays at \<open>x = 650\<close>.
\<close>

theorem C3_id_collision_evaluation:
  "map nid (spineNodesOf (nodes oneSpineDoc)) = [''spine_1'']
   \<and> ribsAbove (nodes oneSpineDoc) (edges oneSpineDoc) ''spine_1'' = []
   \<and> ribsBelow (nodes oneSpineDoc) (edges oneSpineDoc) ''spine_1'' = []
   \<and> map (\<lambda>n. (nid n, dtype (ndata n), pos_x (position n), pos_y (position n)))
        (nodes (runBatch addEdge frozenClock threeCategories oneSpineDoc))
      = [ (''spine_tail'', SPINE, 50, 300), (''spine_1'', SPINE, 400, 300),
          (''problem'', PROBLEM, 650, 265), (''n-1000'', CATEGORY, 250, 50),
          (''n-1000'', CATEGORY, 250, 550), (''n-1000'', CATEGORY, 250, 550) ]
   \<and> map (\<lambda>e. (source e, target e)) (edges (runBatch addEdge frozenClock threeCategories oneSpineDoc))
      = [ (''spine_tail'', ''spine_1''), (''spine_1'', ''problem''), (''n-1000'', ''spine_1''),
          (''n-1000'', ''spine_1''), (''n-1000'', ''spine_1'') ]"
  by code_simp

end
